theory Spec2Isabelle
  imports Complex_Main "HOL-Library.Log_Nat" "HOL-Library.Code_Target_Numeral"
begin

section \<open>JavaScript numbers\<close>

text \<open>
  Every numeric value of \<^verbatim>\<open>renderer.js\<close> is a JavaScript number. The model keeps the
  four kinds the code tells apart with \<^verbatim>\<open>Number.isFinite\<close> and its comparisons: a
  finite value, the two infinities and NaN. A finite value is carried as a real number.
  The conversion of a text to a number rounds to the nearest double, as \<^verbatim>\<open>Number\<close> does
  (\<open>to_double\<close> below). The arithmetic operators are exact here: their rounding and the
  overflow of a finite result to an infinity are not modelled, and the two zeros are one
  (a division by zero gives the infinity of the numerator's sign, as for \<open>+0\<close>).
  The special values follow IEEE 754.
\<close>

datatype jsnum = Num real | PosInf | NegInf | NaN

text \<open>\<^verbatim>\<open>Number.isFinite(n)\<close> for a number \<open>n\<close>.\<close>

fun isFinite :: "jsnum \<Rightarrow> bool" where
  "isFinite (Num _) = True"
| "isFinite _ = False"

fun js_neg :: "jsnum \<Rightarrow> jsnum" where
  "js_neg (Num a) = Num (- a)"
| "js_neg PosInf = NegInf"
| "js_neg NegInf = PosInf"
| "js_neg NaN = NaN"

fun js_add :: "jsnum \<Rightarrow> jsnum \<Rightarrow> jsnum" where
  "js_add (Num a) (Num b) = Num (a + b)"
| "js_add NaN _ = NaN"
| "js_add _ NaN = NaN"
| "js_add PosInf NegInf = NaN"
| "js_add NegInf PosInf = NaN"
| "js_add (Num a) y = y"
| "js_add x _ = x"

definition js_sub :: "jsnum \<Rightarrow> jsnum \<Rightarrow> jsnum" where
  "js_sub x y = js_add x (js_neg y)"

fun js_mul :: "jsnum \<Rightarrow> jsnum \<Rightarrow> jsnum" where
  "js_mul (Num a) (Num b) = Num (a * b)"
| "js_mul NaN _ = NaN"
| "js_mul _ NaN = NaN"
| "js_mul (Num a) y = (if a = 0 then NaN else if 0 < a then y else js_neg y)"
| "js_mul x (Num b) = (if b = 0 then NaN else if 0 < b then x else js_neg x)"
| "js_mul PosInf y = y"
| "js_mul NegInf y = js_neg y"

fun js_div :: "jsnum \<Rightarrow> jsnum \<Rightarrow> jsnum" where
  "js_div (Num a) (Num b) =
     (if b = 0 then (if a = 0 then NaN else if 0 < a then PosInf else NegInf)
      else Num (a / b))"
| "js_div NaN _ = NaN"
| "js_div _ NaN = NaN"
| "js_div (Num a) _ = Num 0"
| "js_div x (Num b) = (if 0 \<le> b then x else js_neg x)"
| "js_div _ _ = NaN"

text \<open>The comparisons \<^verbatim>\<open><=\<close> and \<^verbatim>\<open><\<close>: false as soon as an operand is NaN.\<close>

fun js_le :: "jsnum \<Rightarrow> jsnum \<Rightarrow> bool" where
  "js_le NaN _ = False"
| "js_le _ NaN = False"
| "js_le (Num a) (Num b) = (a \<le> b)"
| "js_le NegInf _ = True"
| "js_le _ PosInf = True"
| "js_le _ _ = False"

fun js_lt :: "jsnum \<Rightarrow> jsnum \<Rightarrow> bool" where
  "js_lt NaN _ = False"
| "js_lt _ NaN = False"
| "js_lt (Num a) (Num b) = (a < b)"
| "js_lt NegInf NegInf = False"
| "js_lt NegInf _ = True"
| "js_lt PosInf _ = False"
| "js_lt (Num a) PosInf = True"
| "js_lt (Num a) NegInf = False"

definition js_ge :: "jsnum \<Rightarrow> jsnum \<Rightarrow> bool" where
  "js_ge x y = js_le y x"

definition js_gt :: "jsnum \<Rightarrow> jsnum \<Rightarrow> bool" where
  "js_gt x y = js_lt y x"

section \<open>The price buffer\<close>

text \<open>
  \<^verbatim>\<open>let priceBuffer = [];  // array of {t,p}\<close>: a sample is a timestamp of
  \<^verbatim>\<open>Date.now()\<close> (integer milliseconds) and a price.
\<close>

record sample =
  t :: int
  p :: jsnum

definition BUF_MAX_POINTS :: nat where
  "BUF_MAX_POINTS = 600"

text \<open>
  \<^verbatim>\<open>
  function pushPrice(t, p) {
    priceBuffer.push({ t, p });
    if (priceBuffer.length > BUF_MAX_POINTS)
      priceBuffer.splice(0, priceBuffer.length - BUF_MAX_POINTS);
  }
  \<close>
  The capacity is a parameter; the program runs with \<open>BUF_MAX_POINTS\<close>.
  \<^verbatim>\<open>splice(0, k)\<close> removes the first \<open>k\<close> elements.
\<close>

definition pushPrice :: "nat \<Rightarrow> sample list \<Rightarrow> int \<Rightarrow> jsnum \<Rightarrow> sample list" where
  "pushPrice N priceBuffer ts px =
     (let b = priceBuffer @ [\<lparr>t = ts, p = px\<rparr>]
      in if N < length b then drop (length b - N) b else b)"

text \<open>A sequence of calls of \<open>pushPrice\<close>, one per sample, in order.\<close>

fun pushPrices :: "nat \<Rightarrow> sample list \<Rightarrow> sample list \<Rightarrow> sample list" where
  "pushPrices N priceBuffer [] = priceBuffer"
| "pushPrices N priceBuffer (s # ss) = pushPrices N (pushPrice N priceBuffer (t s) (p s)) ss"

section \<open>Strings and the conversion to a number\<close>

text \<open>
  A string is a list of characters, one per UTF-16 code unit of the JavaScript string;
  characters outside ASCII do not occur in the values modelled here.
\<close>

definition is_digit :: "char \<Rightarrow> bool" where
  "is_digit c = (c \<in> set ''0123456789'')"

definition digit_val :: "char \<Rightarrow> nat" where
  "digit_val c = of_char c - 48"

text \<open>The value of a hexadecimal digit: \<open>a\<close> is character 97 and \<open>A\<close> character 65.\<close>

definition hex_val :: "char \<Rightarrow> nat" where
  "hex_val c =
     (if is_digit c then of_char c - 48
      else if c \<in> set ''abcdef'' then of_char c - 87 else of_char c - 55)"

definition nat_of_base :: "nat \<Rightarrow> (char \<Rightarrow> nat) \<Rightarrow> string \<Rightarrow> nat" where
  "nat_of_base b val s = foldl (\<lambda>n c. b * n + val c) 0 s"

definition nat_of_digits :: "string \<Rightarrow> nat" where
  "nat_of_digits s = nat_of_base 10 digit_val s"

text \<open>The ASCII white space and line terminators that \<^verbatim>\<open>trim\<close> and \<^verbatim>\<open>Number\<close> strip.\<close>

definition is_space :: "char \<Rightarrow> bool" where
  "is_space c = (c \<in> set [CHR 0x09, CHR 0x0A, CHR 0x0B, CHR 0x0C, CHR 0x0D, CHR 0x20])"

definition trim :: "string \<Rightarrow> string" where
  "trim s = rev (dropWhile is_space (rev (dropWhile is_space s)))"

text \<open>
  The double nearest to the fraction \<open>a / b\<close> (\<open>b\<close> positive), as IEEE 754 binary64
  rounds: to the nearest value \<open>m * 2 ^ e\<close> with \<open>m < 2 ^ 53\<close> and \<open>e \<ge> -1074\<close>, a tie
  going to the even \<open>m\<close>, and to an infinity from \<open>2 ^ 1024\<close> on. \<open>scaled a b e\<close> is
  the fraction \<open>(a / b) / 2 ^ e\<close>, \<open>floor_log2 a b\<close> the integer \<open>f\<close> with
  \<open>2 ^ f \<le> a / b < 2 ^ (f + 1)\<close>, \<open>round_half_even a b\<close> the integer nearest to \<open>a / b\<close>.
\<close>

definition scaled :: "nat \<Rightarrow> nat \<Rightarrow> int \<Rightarrow> nat \<times> nat" where
  "scaled a b e = (if 0 \<le> e then (a, b * 2 ^ nat e) else (a * 2 ^ nat (- e), b))"

definition floor_log2 :: "nat \<Rightarrow> nat \<Rightarrow> int" where
  "floor_log2 a b =
     (let k = int (floorlog 2 a) - int (floorlog 2 b)
      in if snd (scaled a b k) \<le> fst (scaled a b k) then k else k - 1)"

definition round_half_even :: "nat \<Rightarrow> nat \<Rightarrow> nat" where
  "round_half_even a b =
     (let q = a div b; r = a mod b
      in if 2 * r < b then q else if b < 2 * r then q + 1 else if even q then q else q + 1)"

definition to_double :: "nat \<Rightarrow> nat \<Rightarrow> jsnum" where
  "to_double a b =
     (if a = 0 then Num 0
      else (let e = max (floor_log2 a b - 52) (- 1074);
                m = round_half_even (fst (scaled a b e)) (snd (scaled a b e))
            in if 971 < e \<or> (e = 971 \<and> 2 ^ 53 \<le> m) then PosInf
               else Num (real m * 2 powi e)))"

text \<open>
  \<^verbatim>\<open>Number(s)\<close> for a string \<open>s\<close> follows the grammar of ECMAScript's StringToNumber:
  white space is trimmed; the empty string is \<open>0\<close>; a literal with a radix prefix
  (\<^verbatim>\<open>0x\<close>, \<^verbatim>\<open>0o\<close>, \<^verbatim>\<open>0b\<close>) takes no sign; a decimal literal is an optional sign and
  either \<^verbatim>\<open>Infinity\<close> or digits with an optional fraction and an optional exponent;
  every other text is NaN. The value of a literal is its mathematical value, a fraction
  \<open>a / b\<close>, rounded to the nearest double by \<open>to_double\<close>.
\<close>

definition exponent_part :: "string \<Rightarrow> int option" where
  "exponent_part r =
     (case r of
        [] \<Rightarrow> Some 0
      | c # r' \<Rightarrow>
          if c = CHR ''e'' \<or> c = CHR ''E'' then
            (let neg = (r' \<noteq> [] \<and> hd r' = CHR ''-'');
                 ds = (if r' \<noteq> [] \<and> (hd r' = CHR ''-'' \<or> hd r' = CHR ''+'') then tl r' else r')
             in if ds \<noteq> [] \<and> list_all is_digit ds
                then Some (if neg then - int (nat_of_digits ds) else int (nat_of_digits ds))
                else None)
          else None)"

definition unsigned_decimal :: "string \<Rightarrow> (nat \<times> nat) option" where
  "unsigned_decimal s =
     (let ip = takeWhile is_digit s;
          r1 = dropWhile is_digit s;
          dot = (r1 \<noteq> [] \<and> hd r1 = CHR ''.'');
          fp = (if dot then takeWhile is_digit (tl r1) else []);
          r2 = (if dot then dropWhile is_digit (tl r1) else r1)
      in if ip = [] \<and> fp = [] then None
         else (case exponent_part r2 of
                 None \<Rightarrow> None
               | Some e \<Rightarrow>
                   (let n = nat_of_digits (ip @ fp);
                        k = e - int (length fp)
                    in Some (if 0 \<le> k then (n * 10 ^ nat k, 1) else (n, 10 ^ nat (- k))))))"

definition str_decimal :: "string \<Rightarrow> jsnum" where
  "str_decimal s =
     (let neg = (s \<noteq> [] \<and> hd s = CHR ''-'');
          body = (if s \<noteq> [] \<and> (hd s = CHR ''-'' \<or> hd s = CHR ''+'') then tl s else s)
      in if body = ''Infinity'' then (if neg then NegInf else PosInf)
         else (case unsigned_decimal body of
                 None \<Rightarrow> NaN
               | Some (a, b) \<Rightarrow> (if neg then js_neg (to_double a b) else to_double a b)))"

definition non_decimal :: "string \<Rightarrow> jsnum option" where
  "non_decimal s =
     (case s of
        z # x # ds \<Rightarrow>
          if z = CHR ''0'' \<and> x \<in> set ''xXoObB'' then
            Some (if ds = [] then NaN
                  else if x \<in> set ''xX'' then
                    (if list_all (\<lambda>c. c \<in> set ''0123456789abcdefABCDEF'') ds
                     then to_double (nat_of_base 16 hex_val ds) 1 else NaN)
                  else if x \<in> set ''oO'' then
                    (if list_all (\<lambda>c. c \<in> set ''01234567'') ds
                     then to_double (nat_of_base 8 digit_val ds) 1 else NaN)
                  else
                    (if list_all (\<lambda>c. c \<in> set ''01'') ds
                     then to_double (nat_of_base 2 digit_val ds) 1 else NaN))
          else None
      | _ \<Rightarrow> None)"

definition Number_str :: "string \<Rightarrow> jsnum" where
  "Number_str s =
     (let x = trim s
      in if x = [] then Num 0
         else (case non_decimal x of Some v \<Rightarrow> v | None \<Rightarrow> str_decimal x))"

section \<open>The conversion of the smallest denomination\<close>

text \<open>
  \<^verbatim>\<open>
  function attoToFIL(attoStr) {
    let s = String(attoStr).replace(/^0+/, '');
    if (!s.length) return 0;
    if (s.length <= 18) {
      return Number('0.' + s.padStart(18, '0'));
    }
    const intPart = s.slice(0, -18);
    const frac = s.slice(-18);
    return Number(intPart + '.' + frac);
  }
  \<close>
  The argument of the model is the text \<^verbatim>\<open>String(attoStr)\<close>.
\<close>

definition padStart :: "nat \<Rightarrow> char \<Rightarrow> string \<Rightarrow> string" where
  "padStart n c s = replicate (n - length s) c @ s"

definition attoToFIL :: "string \<Rightarrow> jsnum" where
  "attoToFIL attoStr =
     (let s = dropWhile (\<lambda>c. c = CHR ''0'') attoStr
      in if length s = 0 then Num 0
         else if length s \<le> 18 then Number_str (''0.'' @ padStart 18 (CHR ''0'') s)
         else (let intPart = take (length s - 18) s;
                   frac = drop (length s - 18) s
               in Number_str (intPart @ ''.'' @ frac)))"

section \<open>Values received from outside\<close>

text \<open>
  A field of a parsed JSON message or of a configuration entry. \<open>JObject n\<close> stands for
  an object or an array: it is truthy, and \<open>n\<close> is what \<^verbatim>\<open>Number\<close> makes of it.
\<close>

datatype jsval = JUndefined | JNull | JBool bool | JNum jsnum | JStr string | JObject jsnum

text \<open>The truth value JavaScript gives a value in a condition.\<close>

fun truthy :: "jsval \<Rightarrow> bool" where
  "truthy JUndefined = False"
| "truthy JNull = False"
| "truthy (JBool b) = b"
| "truthy (JNum n) = (n \<noteq> Num 0 \<and> n \<noteq> NaN)"
| "truthy (JStr s) = (s \<noteq> [])"
| "truthy (JObject _) = True"

text \<open>\<^verbatim>\<open>Number(v)\<close>.\<close>

fun Number :: "jsval \<Rightarrow> jsnum" where
  "Number JUndefined = NaN"
| "Number JNull = Num 0"
| "Number (JBool b) = Num (if b then 1 else 0)"
| "Number (JNum n) = n"
| "Number (JStr s) = Number_str s"
| "Number (JObject n) = n"

section \<open>Windowed percent change\<close>

text \<open>
  \<^verbatim>\<open>
  function pctChangeSinceMs(ms) {
    if (!priceBuffer.length) return NaN;
    const cutoff = Date.now() - ms;
    let ref = priceBuffer[0];
    for (let i = 0; i < priceBuffer.length; i++) {
      if (priceBuffer[i].t >= cutoff) { ref = priceBuffer[i]; break; }
    }
    const last = priceBuffer[priceBuffer.length - 1];
    if (!ref || !last || !Number.isFinite(ref.p) || !Number.isFinite(last.p) || ref.p === 0)
      return NaN;
    return ((last.p - ref.p) / ref.p) * 100;
  }
  \<close>
  \<open>find_ref\<close> is the loop: it walks the samples from the front and stops at the first
  whose time is not before the cutoff. The clock \<^verbatim>\<open>Date.now()\<close> is the argument \<open>now\<close>.
  A sample is an object, hence truthy: \<^verbatim>\<open>!ref\<close> and \<^verbatim>\<open>!last\<close> are false.
\<close>

fun find_ref :: "int \<Rightarrow> sample list \<Rightarrow> sample \<Rightarrow> sample" where
  "find_ref cutoff [] ref = ref"
| "find_ref cutoff (x # xs) ref = (if cutoff \<le> t x then x else find_ref cutoff xs ref)"

definition pctChangeSinceMs :: "int \<Rightarrow> sample list \<Rightarrow> int \<Rightarrow> jsnum" where
  "pctChangeSinceMs now buf ms =
     (if length buf = 0 then NaN
      else (let cutoff = now - ms;
                ref = find_ref cutoff buf (buf ! 0);
                lst = buf ! (length buf - 1)
            in if \<not> isFinite (p ref) \<or> \<not> isFinite (p lst) \<or> p ref = Num 0 then NaN
               else js_mul (js_div (js_sub (p lst) (p ref)) (p ref)) (Num 100)))"

text \<open>
  The reference sample in the words of the specification: the earliest retained sample
  with a timestamp of at least \<open>now - w\<close>, the oldest retained sample when there is none.
\<close>

definition spec_ref :: "int \<Rightarrow> int \<Rightarrow> sample list \<Rightarrow> sample" where
  "spec_ref now w buf =
     (case filter (\<lambda>s. now - w \<le> t s) buf of [] \<Rightarrow> hd buf | r # _ \<Rightarrow> r)"

section \<open>Windowed high and low\<close>

text \<open>
  \<^verbatim>\<open>
  function minMaxSinceMs(ms) {
    if (!priceBuffer.length) return { hi: NaN, lo: NaN };
    const cutoff = Date.now() - ms;
    const window = priceBuffer.filter(x => x.t >= cutoff);
    const arr = window.length ? window : priceBuffer;
    let hi = -Infinity, lo = Infinity;
    for (const x of arr) {
      if (Number.isFinite(x.p)) {
        if (x.p > hi) hi = x.p;
        if (x.p < lo) lo = x.p;
      }
    }
    return { hi, lo };
  }
  \<close>
  \<open>minmax_loop\<close> is the loop over \<^verbatim>\<open>arr\<close>; the result is the pair of \<^verbatim>\<open>hi\<close> and \<^verbatim>\<open>lo\<close>.
\<close>

fun minmax_loop :: "jsnum \<times> jsnum \<Rightarrow> sample list \<Rightarrow> jsnum \<times> jsnum" where
  "minmax_loop acc [] = acc"
| "minmax_loop acc (x # xs) =
     minmax_loop
       (if isFinite (p x)
        then (if js_gt (p x) (fst acc) then p x else fst acc,
              if js_lt (p x) (snd acc) then p x else snd acc)
        else acc) xs"

definition minMaxSinceMs :: "int \<Rightarrow> sample list \<Rightarrow> int \<Rightarrow> jsnum \<times> jsnum" where
  "minMaxSinceMs now buf ms =
     (if length buf = 0 then (NaN, NaN)
      else (let cutoff = now - ms;
                window = filter (\<lambda>x. cutoff \<le> t x) buf;
                arr = (if length window \<noteq> 0 then window else buf)
            in minmax_loop (NegInf, PosInf) arr))"

section \<open>Settings and state\<close>

text \<open>
  The block \<^verbatim>\<open>USER SETTINGS (edit these)\<close> of the source, and the values it ships with
  (the numeric literal \<^verbatim>\<open>2.481420365016936\<close> has the value \<^verbatim>\<open>Number\<close> gives its text).
\<close>

record lot_entry =
  in_price :: jsval
  in_qty :: jsval
  in_usd :: jsval
  in_ts :: jsval

record settings =
  USE_EXODUS_BALANCE :: bool
  FIL_ADDRESSES :: "string list"
  PRICE_SOURCE :: string
  FIL_LOTS :: "lot_entry list"
  ENABLE_ALERTS :: bool
  ALERT_WEBHOOK :: string
  SL_PRICE :: jsnum
  TP_PRICE :: jsnum
  ALERT_COOLDOWN_MIN :: jsnum

definition shipped_settings :: settings where
  "shipped_settings =
     \<lparr>USE_EXODUS_BALANCE = True,
      FIL_ADDRESSES = [''f16xgionxc7iowpdlqjjmlx6omzutyqzrwl4k4lti''],
      PRICE_SOURCE = ''coinbase'',
      FIL_LOTS = [\<lparr>in_price = JNum (Number_str ''2.481420365016936''), in_qty = JUndefined,
                   in_usd = JNum (Num 100), in_ts = JStr ''2025-09-09''\<rparr>],
      ENABLE_ALERTS = True,
      ALERT_WEBHOOK = [],
      SL_PRICE = Num 2,
      TP_PRICE = Num 3.5,
      ALERT_COOLDOWN_MIN = Num 60\<rparr>"

text \<open>
  \<^verbatim>\<open>
  let lastPrice = NaN;
  let priceBuffer = [];
  let lastAlertTs = 0;
  let cachedQty = NaN;
  let stats24 = { high: NaN, low: NaN };  // 24h high/low from REST
  \<close>
\<close>

record stats =
  high :: jsnum
  low :: jsnum

record state =
  lastPrice :: jsnum
  priceBuffer :: "sample list"
  lastAlertTs :: int
  cachedQty :: jsnum
  stats24 :: stats

definition init_state :: state where
  "init_state =
     \<lparr>lastPrice = NaN, priceBuffer = [], lastAlertTs = 0, cachedQty = NaN,
      stats24 = \<lparr>high = NaN, low = NaN\<rparr>\<rparr>"

section \<open>The price sources\<close>

text \<open>
  \<^verbatim>\<open>
  ws.onmessage = (ev) => {
    const m = JSON.parse(ev.data || '{}');
    if (m.type === 'ticker' && m.product_id === 'FIL-USD' && m.price) {
      const px = Number(m.price);
      if (Number.isFinite(px)) {
        lastPrice = px;
        pushPrice(Date.now(), px);
      }
    }
  };
  \<close>
  The message is \<open>Some m\<close> when the data parses to an object, with \<open>JUndefined\<close> for a
  field it lacks. It is \<open>None\<close> when \<^verbatim>\<open>JSON.parse\<close> throws or gives \<^verbatim>\<open>null\<close> (the handler
  throws) or a value with no fields (the test fails): the state is not touched.
\<close>

record ticker =
  m_type :: jsval
  m_product_id :: jsval
  m_price :: jsval

definition coinbase_onmessage :: "nat \<Rightarrow> int \<Rightarrow> ticker option \<Rightarrow> state \<Rightarrow> state" where
  "coinbase_onmessage N now ev st =
     (case ev of
        None \<Rightarrow> st
      | Some m \<Rightarrow>
          if m_type m = JStr ''ticker'' \<and> m_product_id m = JStr ''FIL-USD'' \<and> truthy (m_price m)
          then (let px = Number (m_price m)
                in if isFinite px
                   then st\<lparr>lastPrice := px, priceBuffer := pushPrice N (priceBuffer st) now px\<rparr>
                   else st)
          else st)"

text \<open>
  \<^verbatim>\<open>
  ws.onmessage = (ev) => {
    const m = JSON.parse(ev.data || '{}');
    if (Array.isArray(m) && m[1] && m[1].c && m[1].c[0]) {
      const px = Number(m[1].c[0]);
      if (Number.isFinite(px)) {
        lastPrice = px;
        pushPrice(Date.now(), px);
      }
    }
  };
  \<close>
  The message is \<open>Some v\<close> when the data parses to an array whose element 1 and its field
  \<^verbatim>\<open>c\<close> are truthy, \<open>v\<close> being \<^verbatim>\<open>m[1].c[0]\<close>; \<open>None\<close> otherwise.
\<close>

definition kraken_onmessage :: "nat \<Rightarrow> int \<Rightarrow> jsval option \<Rightarrow> state \<Rightarrow> state" where
  "kraken_onmessage N now ev st =
     (case ev of
        None \<Rightarrow> st
      | Some v \<Rightarrow>
          if truthy v
          then (let px = Number v
                in if isFinite px
                   then st\<lparr>lastPrice := px, priceBuffer := pushPrice N (priceBuffer st) now px\<rparr>
                   else st)
          else st)"

text \<open>
  \<^verbatim>\<open>
  async function getJsonNum(url, pick) {
    const r = await fetch(url);
    if (!r.ok) return NaN;
    const j = await r.json();
    const v = Number(pick(j));
    return Number.isFinite(v) ? v : NaN;
  }
  \<close>
  What one request brings: \<open>Throws\<close> when \<^verbatim>\<open>fetch\<close>, \<^verbatim>\<open>r.json()\<close> or \<^verbatim>\<open>pick\<close> throws,
  else \<^verbatim>\<open>r.ok\<close> and the picked field. \<open>getJsonNum\<close> is \<open>None\<close> when it throws.
\<close>

datatype response = Throws | Response bool jsval

definition getJsonNum :: "response \<Rightarrow> jsnum option" where
  "getJsonNum r =
     (case r of
        Throws \<Rightarrow> None
      | Response ok picked \<Rightarrow>
          Some (if \<not> ok then NaN
                else (let v = Number picked in if isFinite v then v else NaN)))"

text \<open>
  \<^verbatim>\<open>
  const poll = async () => {
    try {
      let px = NaN;
      if (PRICE_SOURCE === 'coinbase') {
        px = await getJsonNum('https://api.coinbase.com/v2/prices/FIL-USD/spot', ...);
      }
      if (!Number.isFinite(px)) {
        px = await getJsonNum('https://api.kraken.com/0/public/Ticker?pair=FILUSD', ...);
      }
      if (!Number.isFinite(px)) {
        px = await getJsonNum('https://api.coingecko.com/api/v3/simple/price?...', ...);
      }
      if (Number.isFinite(px)) {
        lastPrice = Number(px);
        pushPrice(Date.now(), lastPrice);
        setUpdated('REST polling');
      }
    } catch {}
  };
  \<close>
  One \<^verbatim>\<open>try\<close> encloses the three requests: the first that throws ends the poll.
  \<^verbatim>\<open>Number(px)\<close> of a number is the number.
\<close>

definition poll :: "nat \<Rightarrow> settings \<Rightarrow> int \<Rightarrow> response \<Rightarrow> response \<Rightarrow> response \<Rightarrow> state \<Rightarrow> state" where
  "poll N cfg now coinbase kraken coingecko st =
     (case (if PRICE_SOURCE cfg = ''coinbase'' then getJsonNum coinbase else Some NaN) of
        None \<Rightarrow> st
      | Some px1 \<Rightarrow>
          (case (if \<not> isFinite px1 then getJsonNum kraken else Some px1) of
             None \<Rightarrow> st
           | Some px2 \<Rightarrow>
               (case (if \<not> isFinite px2 then getJsonNum coingecko else Some px2) of
                  None \<Rightarrow> st
                | Some px \<Rightarrow>
                    if isFinite px
                    then st\<lparr>lastPrice := px, priceBuffer := pushPrice N (priceBuffer st) now px\<rparr>
                    else st)))"

section \<open>The 24h statistics\<close>

text \<open>
  \<^verbatim>\<open>
  async function refresh24hStats() {
    try {
      const r = await fetch('https://api.exchange.coinbase.com/products/FIL-USD/stats');
      if (r.ok) {
        const j = await r.json();
        const high = Number(j.high);
        const low  = Number(j.low);
        if (Number.isFinite(high) && Number.isFinite(low)) stats24 = { high, low };
      }
    } catch {}
  }
  \<close>
  What the request brings: \<open>StatsThrows\<close> when \<^verbatim>\<open>fetch\<close> or \<^verbatim>\<open>r.json()\<close> throws, or the
  body has no fields to read; else \<^verbatim>\<open>r.ok\<close> and the fields \<^verbatim>\<open>high\<close> and \<^verbatim>\<open>low\<close>.
\<close>

datatype stats_response = StatsThrows | StatsResponse bool jsval jsval

definition refresh24hStats :: "stats_response \<Rightarrow> state \<Rightarrow> state" where
  "refresh24hStats r st =
     (case r of
        StatsThrows \<Rightarrow> st
      | StatsResponse ok jhigh jlow \<Rightarrow>
          if ok
          then (let h = Number jhigh; l = Number jlow
                in if isFinite h \<and> isFinite l then st\<lparr>stats24 := \<lparr>high = h, low = l\<rparr>\<rparr> else st)
          else st)"

section \<open>Alerts\<close>

text \<open>
  \<^verbatim>\<open>
  function maybeAlert(price) {
    if (!ENABLE_ALERTS) return;
    const now = Date.now();
    const cooldownMs = ALERT_COOLDOWN_MIN * 60_000;
    const canAlert = (now - lastAlertTs) >= cooldownMs;
    const needsSL = Number.isFinite(SL_PRICE) && price <= SL_PRICE;
    const needsTP = Number.isFinite(TP_PRICE) && price >= TP_PRICE;
    if ((needsSL || needsTP) && canAlert) {
      const text = needsSL ? `... stop-loss ...` : `... take-profit ...`;
      try { new Notification('FIL Target Alert', { body: text }); } catch (_) {}
      if (ALERT_WEBHOOK) {
        fetch(ALERT_WEBHOOK, { method: 'POST', ..., body: JSON.stringify({ content: text, ... }) })
          .catch(() => {});
      }
      lastAlertTs = now;
    }
  }
  \<close>
  The text of an alert is kept as its kind with the price and the threshold it prints.
  What the function sends out is the list of its effects, in order: the desktop
  notification, then the webhook post when a webhook is set.
\<close>

datatype alert_text = StopLossText jsnum jsnum | TakeProfitText jsnum jsnum

datatype effect = Notification alert_text | WebhookPost string alert_text

definition maybeAlert :: "settings \<Rightarrow> int \<Rightarrow> jsnum \<Rightarrow> state \<Rightarrow> effect list \<times> state" where
  "maybeAlert cfg now price st =
     (if \<not> ENABLE_ALERTS cfg then ([], st)
      else (let cooldownMs = js_mul (ALERT_COOLDOWN_MIN cfg) (Num 60000);
                canAlert = js_ge (Num (real_of_int (now - lastAlertTs st))) cooldownMs;
                needsSL = (isFinite (SL_PRICE cfg) \<and> js_le price (SL_PRICE cfg));
                needsTP = (isFinite (TP_PRICE cfg) \<and> js_ge price (TP_PRICE cfg))
            in if (needsSL \<or> needsTP) \<and> canAlert
               then (let text = (if needsSL then StopLossText price (SL_PRICE cfg)
                                 else TakeProfitText price (TP_PRICE cfg))
                     in (Notification text
                           # (if ALERT_WEBHOOK cfg \<noteq> [] then [WebhookPost (ALERT_WEBHOOK cfg) text]
                              else []),
                         st\<lparr>lastAlertTs := now\<rparr>))
               else ([], st)))"

text \<open>The alert events among the effects: one per notification raised.\<close>

fun alert_events :: "effect list \<Rightarrow> alert_text list" where
  "alert_events [] = []"
| "alert_events (Notification a # es) = a # alert_events es"
| "alert_events (WebhookPost _ _ # es) = alert_events es"

section \<open>The on-chain quantity\<close>

text \<open>
  \<^verbatim>\<open>
  async function fetchExodusQtyFIL() {
    if (!USE_EXODUS_BALANCE) return NaN;
    const addrs = (FIL_ADDRESSES || []).map(s => String(s || '').trim()).filter(Boolean);
    if (!addrs.length) return NaN;
    let total = 0;
    for (const a of addrs) {
      const q = await fetchFILAddressBalance(a);
      if (Number.isFinite(q)) total += q;
    }
    if (!Number.isFinite(total) || total <= 0) {
      return Number.isFinite(cachedQty) ? cachedQty : NaN;
    }
    cachedQty = total;
    return total;
  }
  \<close>
  \<^verbatim>\<open>fetchFILAddressBalance\<close> asks the network; what it returns for an address in this
  round is the argument \<open>balance\<close> (it returns NaN when every provider fails; an address
  listed twice gets the same answer twice). A round is taken as one step: what other
  callbacks do between its requests is not modelled.
  \<open>sum_balances\<close> is the loop, \<open>tot\<close> the variable \<^verbatim>\<open>total\<close>.
\<close>

fun sum_balances :: "(string \<Rightarrow> jsnum) \<Rightarrow> jsnum \<Rightarrow> string list \<Rightarrow> jsnum" where
  "sum_balances balance tot [] = tot"
| "sum_balances balance tot (a # as) =
     (let q = balance a
      in sum_balances balance (if isFinite q then js_add tot q else tot) as)"

definition fetchExodusQtyFIL :: "settings \<Rightarrow> (string \<Rightarrow> jsnum) \<Rightarrow> state \<Rightarrow> jsnum \<times> state" where
  "fetchExodusQtyFIL cfg balance st =
     (if \<not> USE_EXODUS_BALANCE cfg then (NaN, st)
      else (let addrs = filter (\<lambda>s. s \<noteq> []) (map trim (FIL_ADDRESSES cfg))
            in if length addrs = 0 then (NaN, st)
               else (let tot = sum_balances balance (Num 0) addrs
                     in if \<not> isFinite tot \<or> js_le tot (Num 0)
                        then (if isFinite (cachedQty st) then cachedQty st else NaN, st)
                        else (tot, st\<lparr>cachedQty := tot\<rparr>))))"

text \<open>
  \<^verbatim>\<open>const refreshQty = async () => { cachedQty = await fetchExodusQtyFIL(); };\<close>
\<close>

definition refreshQty :: "settings \<Rightarrow> (string \<Rightarrow> jsnum) \<Rightarrow> state \<Rightarrow> state" where
  "refreshQty cfg balance st =
     (case fetchExodusQtyFIL cfg balance st of (r, st') \<Rightarrow> st'\<lparr>cachedQty := r\<rparr>)"


section \<open>Lots and position\<close>

text \<open>
  \<^verbatim>\<open>
  function normalizeLots(lots) {
    const out = [];
    for (const l of lots || []) {
      const price = Number(l.price);
      if (!Number.isFinite(price) || price <= 0) continue;
      let qty, usd;
      if (l.qty != null) {
        qty = Number(l.qty);
        if (!Number.isFinite(qty) || qty <= 0) continue;
        usd = qty * price;
      } else if (l.usd != null) {
        usd = Number(l.usd);
        if (!Number.isFinite(usd) || usd <= 0) continue;
        qty = usd / price;
      } else {
        continue;
      }
      out.push({ qty, usd, price, ts: l.ts || null });
    }
    return out;
  }
  \<close>
  \<open>normalizeLot\<close> is the body of the loop, \<open>None\<close> where it says \<^verbatim>\<open>continue\<close>;
  \<^verbatim>\<open>x != null\<close> holds when \<open>x\<close> is neither \<^verbatim>\<open>null\<close> nor \<^verbatim>\<open>undefined\<close>.
\<close>

record lot =
  lot_qty :: jsnum
  lot_usd :: jsnum
  lot_price :: jsnum
  lot_ts :: jsval

definition not_nullish :: "jsval \<Rightarrow> bool" where
  "not_nullish v = (v \<noteq> JNull \<and> v \<noteq> JUndefined)"

definition normalizeLot :: "lot_entry \<Rightarrow> lot option" where
  "normalizeLot l =
     (let price = Number (in_price l);
          stamp = (if truthy (in_ts l) then in_ts l else JNull)
      in if \<not> isFinite price \<or> js_le price (Num 0) then None
         else if not_nullish (in_qty l) then
           (let q = Number (in_qty l)
            in if \<not> isFinite q \<or> js_le q (Num 0) then None
               else Some \<lparr>lot_qty = q, lot_usd = js_mul q price, lot_price = price, lot_ts = stamp\<rparr>)
         else if not_nullish (in_usd l) then
           (let u = Number (in_usd l)
            in if \<not> isFinite u \<or> js_le u (Num 0) then None
               else Some \<lparr>lot_qty = js_div u price, lot_usd = u, lot_price = price, lot_ts = stamp\<rparr>)
         else None)"

fun normalize_loop :: "lot list \<Rightarrow> lot_entry list \<Rightarrow> lot list" where
  "normalize_loop out [] = out"
| "normalize_loop out (l # ls) =
     normalize_loop (case normalizeLot l of None \<Rightarrow> out | Some x \<Rightarrow> out @ [x]) ls"

definition normalizeLots :: "lot_entry list \<Rightarrow> lot list" where
  "normalizeLots lots = normalize_loop [] lots"

text \<open>
  \<^verbatim>\<open>
  function computePosition(overrideQtyMaybe) {
    const lots = normalizeLots(FIL_LOTS);
    let invested = 0, qtyLots = 0;
    for (const l of lots) { invested += l.usd; qtyLots += l.qty; }
    const qty = Number.isFinite(overrideQtyMaybe) && overrideQtyMaybe > 0 ? overrideQtyMaybe : qtyLots;
    const avg = qty > 0 ? invested / qty : NaN;
    return { lotsCount: lots.length, qty, invested, avgCost: avg };
  }
  \<close>
\<close>

record position =
  lotsCount :: nat
  qty :: jsnum
  invested :: jsnum
  avgCost :: jsnum

fun sum_lots :: "jsnum \<times> jsnum \<Rightarrow> lot list \<Rightarrow> jsnum \<times> jsnum" where
  "sum_lots acc [] = acc"
| "sum_lots acc (l # ls) = sum_lots (js_add (fst acc) (lot_usd l), js_add (snd acc) (lot_qty l)) ls"

definition computePosition :: "settings \<Rightarrow> jsnum \<Rightarrow> position" where
  "computePosition cfg overrideQtyMaybe =
     (let lots = normalizeLots (FIL_LOTS cfg);
          both = sum_lots (Num 0, Num 0) lots;
          inv = fst both;
          qtyLots = snd both;
          q = (if isFinite overrideQtyMaybe \<and> js_gt overrideQtyMaybe (Num 0)
               then overrideQtyMaybe else qtyLots);
          avg = (if js_gt q (Num 0) then js_div inv q else NaN)
      in \<lparr>lotsCount = length lots, qty = q, invested = inv, avgCost = avg\<rparr>)"

section \<open>The render tick\<close>

text \<open>
  \<^verbatim>\<open>
  const fmt2  = n => Number.isFinite(n) ? Number(n).toFixed(2) : '-';   // an em dash
  const fmt6  = n => Number.isFinite(n) ? Number(n).toFixed(6) : '-';
  const fmtFIL= n => Number.isFinite(n) ? Number(n).toFixed(4) : '-';
  const fmtPct= n => Number.isFinite(n) ? ((n>=0?'+':'') + n.toFixed(2) + '%') : '-';
  \<close>
  A rendered cell is the placeholder or a finite value with the number of decimals it is
  printed with; the digits \<^verbatim>\<open>toFixed\<close> produces are not modelled.
\<close>

datatype shown = Dash | Fixed nat jsnum | Percent jsnum

definition fmt2 :: "jsnum \<Rightarrow> shown" where
  "fmt2 n = (if isFinite n then Fixed 2 n else Dash)"

definition fmt6 :: "jsnum \<Rightarrow> shown" where
  "fmt6 n = (if isFinite n then Fixed 6 n else Dash)"

definition fmtFIL :: "jsnum \<Rightarrow> shown" where
  "fmtFIL n = (if isFinite n then Fixed 4 n else Dash)"

definition fmtPct :: "jsnum \<Rightarrow> shown" where
  "fmtPct n = (if isFinite n then Percent n else Dash)"

text \<open>
  \<^verbatim>\<open>
  function render() {
    const prev = priceBuffer.length > 1 ? priceBuffer[priceBuffer.length - 2].p : lastPrice;
    const priceClass = Number.isFinite(lastPrice)
      ? (lastPrice >= prev ? COLOR_POS : COLOR_NEG) : COLOR_NEU;
    elPrice.textContent = Number.isFinite(lastPrice) ? `$${fmt2(lastPrice)}` : '-';
    elPrice.className = `value ${priceClass}`;
    const ch1h  = pctChangeSinceMs(1 * 3600 * 1000);
    const ch24h = pctChangeSinceMs(24 * 3600 * 1000);
    elDelta.innerHTML = `<span class="${(ch1h>=0)?'pos':'neg'}">${fmtPct(ch1h)}</span> /
      <span class="${(ch24h>=0)?'pos':'neg'}">${fmtPct(ch24h)}</span>`;
    const mm = minMaxSinceMs(24 * 3600 * 1000);
    const hi = Number.isFinite(stats24.high) ? stats24.high : mm.hi;
    const lo = Number.isFinite(stats24.low)  ? stats24.low  : mm.lo;
    elHL24.textContent = `$${fmt2(hi)} / $${fmt2(lo)}`;
    const pos = computePosition(cachedQty);
    const value = Number.isFinite(lastPrice) ? pos.qty * lastPrice : NaN;
    const pnlUSD = Number.isFinite(value) ? (value - pos.invested) : NaN;
    const pnlPct = (pos.invested > 0 && Number.isFinite(value)) ? (pnlUSD / pos.invested) * 100 : NaN;
    const fromAvgPct = (Number.isFinite(pos.avgCost) && pos.avgCost > 0 && Number.isFinite(lastPrice))
      ? ((lastPrice - pos.avgCost) / pos.avgCost) * 100 : NaN;
    const qtyLabel = USE_EXODUS_BALANCE ? 'Qty (on-chain)' : 'Qty';
    elPos.innerHTML = [
      `Lots <b>${pos.lotsCount}</b>`,
      `${qtyLabel} <b>${fmtFIL(pos.qty)} FIL</b>`,
      `Cost <b>$${fmt2(pos.invested)}</b> @ Avg <b>$${fmt6(pos.avgCost)}</b>`,
      `Value <b>$${fmt2(value)}</b>`,
      `P&L <b>$${fmt2(pnlUSD)} (${fmtPct(pnlPct)})</b>`,
      `From Avg <b>${fmtPct(fromAvgPct)}</b>`
    ].join(' * ');
    const tps = Number.isFinite(TP_PRICE) && Number.isFinite(lastPrice)
      ? `TP $${fmt2(TP_PRICE)} (${fmtPct(((TP_PRICE / lastPrice) - 1) * 100)})` : null;
    const sls = Number.isFinite(SL_PRICE) && Number.isFinite(lastPrice)
      ? `SL $${fmt2(SL_PRICE)} (${fmtPct(((SL_PRICE / lastPrice) - 1) * 100)})` : null;
    elTargets.innerHTML = [tps, sls].filter(Boolean).join(' * ') || '-';
    if (Number.isFinite(lastPrice)) maybeAlert(lastPrice);
  }
  \<close>
  The output is the record of everything \<^verbatim>\<open>render\<close> writes: each number as the cell its
  formatter makes of it, each class as a colour, a target line as the pair of its two
  cells (or nothing when the line is left out). The clock is read by \<^verbatim>\<open>pctChangeSinceMs\<close>,
  \<^verbatim>\<open>minMaxSinceMs\<close> and \<^verbatim>\<open>maybeAlert\<close>; the model gives them the one reading \<open>now\<close>.
\<close>

datatype colour = COLOR_POS | COLOR_NEG | COLOR_NEU

definition render_value :: "position \<Rightarrow> jsnum \<Rightarrow> jsnum" where
  "render_value pos lp = (if isFinite lp then js_mul (qty pos) lp else NaN)"

definition render_pnlUSD :: "position \<Rightarrow> jsnum \<Rightarrow> jsnum" where
  "render_pnlUSD pos lp =
     (let v = render_value pos lp in if isFinite v then js_sub v (invested pos) else NaN)"

definition render_pnlPct :: "position \<Rightarrow> jsnum \<Rightarrow> jsnum" where
  "render_pnlPct pos lp =
     (if js_gt (invested pos) (Num 0) \<and> isFinite (render_value pos lp)
      then js_mul (js_div (render_pnlUSD pos lp) (invested pos)) (Num 100) else NaN)"

definition render_fromAvgPct :: "position \<Rightarrow> jsnum \<Rightarrow> jsnum" where
  "render_fromAvgPct pos lp =
     (if isFinite (avgCost pos) \<and> js_gt (avgCost pos) (Num 0) \<and> isFinite lp
      then js_mul (js_div (js_sub lp (avgCost pos)) (avgCost pos)) (Num 100) else NaN)"

text \<open>\<^verbatim>\<open>((threshold / lastPrice) - 1) * 100\<close>, as it stands inside \<open>tps\<close> and \<open>sls\<close>.\<close>

definition target_pct :: "jsnum \<Rightarrow> jsnum \<Rightarrow> jsnum" where
  "target_pct threshold lp = js_mul (js_sub (js_div threshold lp) (Num 1)) (Num 100)"

definition render_target :: "jsnum \<Rightarrow> jsnum \<Rightarrow> (shown \<times> shown) option" where
  "render_target threshold lp =
     (if isFinite threshold \<and> isFinite lp
      then Some (fmt2 threshold, fmtPct (target_pct threshold lp)) else None)"

text \<open>The price line: the class of the price and its text.\<close>

definition render_priceClass :: "sample list \<Rightarrow> jsnum \<Rightarrow> colour" where
  "render_priceClass buf lp =
     (let prev = (if 1 < length buf then p (buf ! (length buf - 2)) else lp)
      in if isFinite lp then (if js_ge lp prev then COLOR_POS else COLOR_NEG) else COLOR_NEU)"

definition render_price :: "jsnum \<Rightarrow> shown" where
  "render_price lp = (if isFinite lp then fmt2 lp else Dash)"

text \<open>The class of a delta: \<^verbatim>\<open>(ch >= 0) ? 'pos' : 'neg'\<close>.\<close>

definition delta_class :: "jsnum \<Rightarrow> colour" where
  "delta_class ch = (if js_ge ch (Num 0) then COLOR_POS else COLOR_NEG)"

text \<open>The high and the low: the REST statistics when finite, else those of the buffer.\<close>

definition render_hi :: "int \<Rightarrow> state \<Rightarrow> jsnum" where
  "render_hi now st =
     (if isFinite (high (stats24 st)) then high (stats24 st)
      else fst (minMaxSinceMs now (priceBuffer st) (24 * 3600 * 1000)))"

definition render_lo :: "int \<Rightarrow> state \<Rightarrow> jsnum" where
  "render_lo now st =
     (if isFinite (low (stats24 st)) then low (stats24 st)
      else snd (minMaxSinceMs now (priceBuffer st) (24 * 3600 * 1000)))"

record rendered =
  r_price :: shown
  r_priceClass :: colour
  r_delta1h :: shown
  r_class1h :: colour
  r_delta24h :: shown
  r_class24h :: colour
  r_hi :: shown
  r_lo :: shown
  r_lots :: nat
  r_qtyOnChain :: bool
  r_qty :: shown
  r_cost :: shown
  r_avg :: shown
  r_value :: shown
  r_pnlUSD :: shown
  r_pnlPct :: shown
  r_fromAvg :: shown
  r_tps :: "(shown \<times> shown) option"
  r_sls :: "(shown \<times> shown) option"

definition render_out :: "settings \<Rightarrow> int \<Rightarrow> state \<Rightarrow> rendered" where
  "render_out cfg now st =
     (let lp = lastPrice st;
          ch1h = pctChangeSinceMs now (priceBuffer st) (1 * 3600 * 1000);
          ch24h = pctChangeSinceMs now (priceBuffer st) (24 * 3600 * 1000);
          pos = computePosition cfg (cachedQty st)
      in \<lparr>r_price = render_price lp,
          r_priceClass = render_priceClass (priceBuffer st) lp,
          r_delta1h = fmtPct ch1h,
          r_class1h = delta_class ch1h,
          r_delta24h = fmtPct ch24h,
          r_class24h = delta_class ch24h,
          r_hi = fmt2 (render_hi now st),
          r_lo = fmt2 (render_lo now st),
          r_lots = lotsCount pos,
          r_qtyOnChain = USE_EXODUS_BALANCE cfg,
          r_qty = fmtFIL (qty pos),
          r_cost = fmt2 (invested pos),
          r_avg = fmt6 (avgCost pos),
          r_value = fmt2 (render_value pos lp),
          r_pnlUSD = fmt2 (render_pnlUSD pos lp),
          r_pnlPct = fmtPct (render_pnlPct pos lp),
          r_fromAvg = fmtPct (render_fromAvgPct pos lp),
          r_tps = render_target (TP_PRICE cfg) lp,
          r_sls = render_target (SL_PRICE cfg) lp\<rparr>)"

definition render :: "settings \<Rightarrow> int \<Rightarrow> state \<Rightarrow> rendered \<times> effect list \<times> state" where
  "render cfg now st =
     (if isFinite (lastPrice st)
      then (render_out cfg now st, maybeAlert cfg now (lastPrice st) st)
      else (render_out cfg now st, [], st))"

section \<open>The callbacks as one machine\<close>

text \<open>
  The callbacks run one at a time. An event is one callback with what the outside world
  brought it; \<open>step\<close> runs it at a clock reading, \<open>run\<close> a whole history from a state.
\<close>

datatype event =
    CoinbaseMessage "ticker option"
  | KrakenMessage "jsval option"
  | RestPoll response response response
  | RefreshQty "string \<Rightarrow> jsnum"
  | RefreshStats stats_response
  | RenderTick

fun step :: "nat \<Rightarrow> settings \<Rightarrow> int \<times> event \<Rightarrow> state \<Rightarrow> state" where
  "step N cfg (now, CoinbaseMessage ev) st = coinbase_onmessage N now ev st"
| "step N cfg (now, KrakenMessage ev) st = kraken_onmessage N now ev st"
| "step N cfg (now, RestPoll a b c) st = poll N cfg now a b c st"
| "step N cfg (now, RefreshQty balance) st = refreshQty cfg balance st"
| "step N cfg (now, RefreshStats r) st = refresh24hStats r st"
| "step N cfg (now, RenderTick) st = snd (snd (render cfg now st))"

fun run :: "nat \<Rightarrow> settings \<Rightarrow> (int \<times> event) list \<Rightarrow> state \<Rightarrow> state" where
  "run N cfg [] st = st"
| "run N cfg (e # es) st = run N cfg es (step N cfg e st)"

section \<open>Invariants and predicates used in the statements\<close>

text \<open>
  The invariant of the price path: every buffered price is finite, the buffer holds at
  most \<open>N\<close> samples, and the current price is finite or still the initial NaN.
\<close>

definition price_inv :: "nat \<Rightarrow> state \<Rightarrow> bool" where
  "price_inv N st =
     (list_all (\<lambda>s. isFinite (p s)) (priceBuffer st)
      \<and> length (priceBuffer st) \<le> N
      \<and> (lastPrice st = NaN \<or> isFinite (lastPrice st)))"

text \<open>A request brings a finite number: \<open>getJsonNum\<close> returns one.\<close>

definition brings_finite :: "response \<Rightarrow> bool" where
  "brings_finite r = (case getJsonNum r of None \<Rightarrow> False | Some x \<Rightarrow> isFinite x)"




text \<open>
  The alert conditions in the words of the specification: a threshold is configured when
  it is a finite number; the cooldown is over when \<open>now - lastFiredAt \<ge> cooldown\<close>.
\<close>

definition stop_loss_triggers :: "settings \<Rightarrow> jsnum \<Rightarrow> bool" where
  "stop_loss_triggers cfg price = (isFinite (SL_PRICE cfg) \<and> js_le price (SL_PRICE cfg))"

definition take_profit_triggers :: "settings \<Rightarrow> jsnum \<Rightarrow> bool" where
  "take_profit_triggers cfg price = (isFinite (TP_PRICE cfg) \<and> js_ge price (TP_PRICE cfg))"

definition cooldown_over :: "settings \<Rightarrow> int \<Rightarrow> state \<Rightarrow> bool" where
  "cooldown_over cfg now st =
     js_ge (Num (real_of_int (now - lastAlertTs st))) (js_mul (ALERT_COOLDOWN_MIN cfg) (Num 60000))"

definition alert_text_for :: "settings \<Rightarrow> jsnum \<Rightarrow> alert_text" where
  "alert_text_for cfg price =
     (if stop_loss_triggers cfg price then StopLossText price (SL_PRICE cfg)
      else TakeProfitText price (TP_PRICE cfg))"



section \<open>Properties of the price buffer\<close>

lemma sample_eta: "\<lparr>t = t s, p = p s\<rparr> = (s::sample)"
  by (cases s) simp

lemma keep_last_length: "length (if N < length c then drop (length c - N) c else c) \<le> N"
  by auto

lemma keep_last_drop: "(if N < length c then drop (length c - N) c else c) = drop (length c - N) c"
  by auto

lemma pushPrice_length: "length (pushPrice N b ts px) \<le> N"
  unfolding pushPrice_def Let_def by (rule keep_last_length)

lemma pushPrice_drop:
  "pushPrice N b (t s) (p s) = drop (length (b @ [s]) - N) (b @ [s])"
  unfolding pushPrice_def Let_def sample_eta by (rule keep_last_drop)

lemma pushPrices_drop:
  "pushPrices N (drop (length ys - N) ys) ss = drop (length (ys @ ss) - N) (ys @ ss)"
proof (induction ss arbitrary: ys)
  case Nil
  show ?case by simp
next
  case (Cons s ss)
  have step: "pushPrice N (drop (length ys - N) ys) (t s) (p s) =
      drop (length (ys @ [s]) - N) (ys @ [s])"
  proof (cases "length ys \<le> N")
    case True
    then show ?thesis by (simp add: pushPrice_drop)
  next
    case False
    then have "Suc (length ys) - N = Suc (length ys - N)" by simp
    with False show ?thesis by (simp add: pushPrice_drop)
  qed
  have "pushPrices N (drop (length ys - N) ys) (s # ss) =
      pushPrices N (drop (length (ys @ [s]) - N) (ys @ [s])) ss"
    by (simp only: pushPrices.simps step)
  also have "\<dots> = drop (length ((ys @ [s]) @ ss) - N) ((ys @ [s]) @ ss)"
    by (rule Cons.IH)
  finally show ?case by simp
qed

text \<open>
  C1. For every capacity \<open>N\<close> and every sequence \<open>ss\<close> of appended samples: one append
  leaves at most \<open>N\<close> samples whatever the buffer was, and the buffer that starts empty
  holds, after the whole sequence, exactly the last \<open>min N (length ss)\<close> samples appended,
  in the order of their insertion (the oldest are the ones evicted). With the capacity
  of the program the bound is 600.
\<close>

theorem pushPrice_bounded_fifo:
  "length (pushPrice N b ts px) \<le> N
   \<and> pushPrices N [] ss = drop (length ss - N) ss
   \<and> length (pushPrices N [] ss) = min N (length ss)
   \<and> length (pushPrice BUF_MAX_POINTS b ts px) \<le> 600"
proof -
  have d: "pushPrices N [] ss = drop (length ss - N) ss"
    using pushPrices_drop [of N "[]" ss] by simp
  have "length (drop (length ss - N) ss) = min N (length ss)" by auto
  moreover have "length (pushPrice BUF_MAX_POINTS b ts px) \<le> 600"
    using pushPrice_length [of BUF_MAX_POINTS b ts px] by (simp add: BUF_MAX_POINTS_def)
  ultimately show ?thesis using d by (simp add: pushPrice_length)
qed

theorem pushPrice_bounded_fifo_witness:
  "pushPrices 2 [] [\<lparr>t = 1, p = Num 5\<rparr>, \<lparr>t = 2, p = Num 7\<rparr>, \<lparr>t = 3, p = Num 3\<rparr>]
     = [\<lparr>t = 2, p = Num 7\<rparr>, \<lparr>t = 3, p = Num 3\<rparr>]"
  using pushPrice_bounded_fifo [of 2 "[]" 0 NaN
      "[\<lparr>t = 1, p = Num 5\<rparr>, \<lparr>t = 2, p = Num 7\<rparr>, \<lparr>t = 3, p = Num 3\<rparr>]"]
  by simp

section \<open>Properties of the rounding to a double\<close>

lemma scaled_pos: "0 < b \<Longrightarrow> 0 < snd (scaled a b e)"
  by (simp add: scaled_def)

lemma scaled_ratio:
  "0 < b \<Longrightarrow> real (fst (scaled a b e)) / real (snd (scaled a b e)) = real a / real b * 2 powi (- e)"
  by (simp add: scaled_def power_int_def field_simps)

lemma round_half_even_near:
  assumes "0 < b"
  shows "\<bar>real (round_half_even a b) - real a / real b\<bar> \<le> 1 / 2"
proof -
  define q where "q = a div b"
  define r where "r = a mod b"
  have a: "a = q * b + r" by (simp add: q_def r_def)
  have rb: "r < b" using assms by (simp add: r_def)
  have x: "real a / real b = real q + real r / real b"
    using assms by (simp add: a field_simps)
  consider "2 * r < b" | "b < 2 * r" | "2 * r = b" by linarith
  then show ?thesis
  proof cases
    case 1
    then have "round_half_even a b = q" by (simp add: round_half_even_def q_def r_def Let_def)
    moreover from 1 assms have "real r / real b \<le> 1 / 2" by (simp add: field_simps)
    ultimately show ?thesis by (simp add: x)
  next
    case 2
    then have "round_half_even a b = q + 1" by (simp add: round_half_even_def q_def r_def Let_def)
    moreover from 2 assms have "1 / 2 \<le> real r / real b" by (simp add: field_simps)
    moreover from rb assms have "real r / real b \<le> 1" by (simp add: field_simps)
    ultimately show ?thesis by (simp add: x)
  next
    case 3
    then have "round_half_even a b = q \<or> round_half_even a b = q + 1"
      by (simp add: round_half_even_def q_def r_def Let_def)
    moreover from 3 assms have "real r / real b = 1 / 2" by (simp add: field_simps)
    ultimately show ?thesis unfolding x by auto
  qed
qed

lemma round_half_even_exact:
  assumes "0 < b" "real a / real b = real m"
  shows "round_half_even a b = m"
proof -
  from assms have "real a = real (m * b)" by (simp add: field_simps)
  then have "a = m * b" by (simp only: of_nat_eq_iff)
  with assms(1) show ?thesis by (simp add: round_half_even_def)
qed

lemma floorlog_real_bounds:
  assumes "0 < a"
  shows "(2::real) powi (int (floorlog 2 a) - 1) \<le> real a" and "real a < 2 powi (int (floorlog 2 a))"
proof -
  define l where "l = floorlog 2 a"
  have b: "2 ^ (l - 1) \<le> a" "a < 2 ^ l"
    using floorlog_bounds [of a 2] assms by (simp_all add: l_def)
  have "l \<noteq> 0" using assms floorlog_eq_zero_iff [of 2 a] by (simp add: l_def)
  then have i: "int l - 1 = int (l - 1)" by simp
  have "real (2 ^ (l - 1)) \<le> real a" using b(1) by (simp only: of_nat_le_iff)
  then have "(2::real) ^ (l - 1) \<le> real a" by simp
  then show "(2::real) powi (int (floorlog 2 a) - 1) \<le> real a"
    unfolding l_def [symmetric] i power_int_of_nat .
  have "real a < real (2 ^ l)" using b(2) by (simp only: of_nat_less_iff)
  then have "real a < (2::real) ^ l" by simp
  then show "real a < 2 powi (int (floorlog 2 a))"
    unfolding l_def [symmetric] power_int_of_nat .
qed

lemma floor_log2_bounds:
  assumes "0 < a" "0 < b"
  shows "2 powi (floor_log2 a b) \<le> real a / real b \<and> real a / real b < 2 powi (floor_log2 a b + 1)"
proof -
  define la where "la = int (floorlog 2 a)"
  define lb where "lb = int (floorlog 2 b)"
  define k where "k = la - lb"
  define x where "x = real a / real b"
  note ra = floorlog_real_bounds [OF assms(1), folded la_def]
  note rb = floorlog_real_bounds [OF assms(2), folded lb_def]
  have bpos: "0 < real b" using assms by simp
  have p2: "0 < (2::real) powi i" for i by (simp add: zero_less_power_int)
  have up: "x < 2 powi (k + 1)"
  proof -
    have "la = (k + 1) + (lb - 1)" by (simp add: k_def)
    then have "(2::real) powi la = 2 powi (k + 1) * 2 powi (lb - 1)"
      by (simp only: power_int_add [of "2::real", simplified])
    also have "\<dots> \<le> 2 powi (k + 1) * real b"
      using rb(1) p2 [of "k + 1"] by (intro mult_left_mono) simp_all
    finally have "real a < 2 powi (k + 1) * real b" using ra(2) by linarith
    then show ?thesis unfolding x_def using bpos by (simp only: pos_divide_less_eq)
  qed
  have lo: "2 powi (k - 1) \<le> x"
  proof -
    have "la - 1 = (k - 1) + lb" by (simp add: k_def)
    then have e: "(2::real) powi (la - 1) = 2 powi (k - 1) * 2 powi lb"
      by (simp only: power_int_add [of "2::real", simplified])
    have "2 powi (k - 1) * real b \<le> 2 powi (k - 1) * 2 powi lb"
      using rb(2) p2 [of "k - 1"] by (intro mult_left_mono) simp_all
    with e ra(1) have "2 powi (k - 1) * real b \<le> real a" by linarith
    then show ?thesis unfolding x_def using bpos by (simp only: pos_le_divide_eq)
  qed
  have test: "(snd (scaled a b k) \<le> fst (scaled a b k)) = (2 powi k \<le> x)"
  proof -
    define u where "u = real (fst (scaled a b k))"
    define v where "v = real (snd (scaled a b k))"
    define w where "w = (2::real) powi k"
    have v: "0 < v" using scaled_pos [OF assms(2), of a k] by (simp add: v_def)
    have w: "0 < w" unfolding w_def by (rule p2)
    have r: "u / v = x * inverse w"
      unfolding u_def v_def x_def w_def scaled_ratio [OF assms(2)] power_int_minus ..
    have "(snd (scaled a b k) \<le> fst (scaled a b k)) = (v \<le> u)"
      unfolding u_def v_def by simp
    also have "\<dots> = (1 \<le> u / v)" using v by (simp add: pos_le_divide_eq)
    also have "\<dots> = (1 \<le> x * inverse w)" unfolding r ..
    also have "\<dots> = (w \<le> x)" using w by (simp add: field_simps)
    finally show ?thesis unfolding w_def .
  qed
  have fl: "floor_log2 a b = (if 2 powi k \<le> x then k else k - 1)"
    unfolding floor_log2_def Let_def la_def [symmetric] lb_def [symmetric] k_def [symmetric] test ..
  show ?thesis
  proof (cases "2 powi k \<le> x")
    case True
    with up fl show ?thesis unfolding x_def by simp
  next
    case False
    with lo fl show ?thesis unfolding x_def by simp
  qed
qed

lemma binade_unique:
  assumes "2 powi f \<le> (x::real)" "x < 2 powi (f + 1)" "2 powi g \<le> x" "x < 2 powi (g + 1)"
  shows "f = g"
proof -
  have lt: "i < j + 1" if "(2::real) powi i < 2 powi (j + 1)" for i j :: int
  proof (rule ccontr)
    assume "\<not> i < j + 1"
    then have "j + 1 \<le> i" by simp
    then have "(2::real) powi (j + 1) \<le> 2 powi i" by (intro power_int_increasing) simp_all
    with that show False by simp
  qed
  have "(2::real) powi f < 2 powi (g + 1)" using assms(1,4) by linarith
  then have 1: "f < g + 1" by (rule lt)
  have "(2::real) powi g < 2 powi (f + 1)" using assms(3,2) by linarith
  then have 2: "g < f + 1" by (rule lt)
  from 1 2 show ?thesis by simp
qed

lemma floor_log2_eq:
  assumes "0 < a" "0 < b" "2 powi f \<le> real a / real b" "real a / real b < 2 powi (f + 1)"
  shows "floor_log2 a b = f"
  using floor_log2_bounds [OF assms(1,2)] assms(3,4) binade_unique by blast


lemma powi_less_imp_less:
  assumes "(2::real) powi i < 2 powi j"
  shows "i < j"
proof (rule ccontr)
  assume "\<not> i < j"
  then have "j \<le> i" by simp
  then have "(2::real) powi j \<le> 2 powi i" by (intro power_int_increasing) simp_all
  with assms show False by simp
qed

lemma to_double_eval:
  assumes "0 < a" "0 < b" "2 powi f \<le> real a / real b" "real a / real b < 2 powi (f + 1)"
  shows "to_double a b =
     (if 971 < max (f - 52) (- 1074)
         \<or> (max (f - 52) (- 1074) = 971
             \<and> 2 ^ 53 \<le> round_half_even (fst (scaled a b (max (f - 52) (- 1074))))
                          (snd (scaled a b (max (f - 52) (- 1074)))))
      then PosInf
      else Num (real (round_half_even (fst (scaled a b (max (f - 52) (- 1074))))
                        (snd (scaled a b (max (f - 52) (- 1074)))))
                * 2 powi (max (f - 52) (- 1074))))"
  unfolding to_double_def Let_def floor_log2_eq [OF assms] using assms(1) by simp

lemma to_double_near:
  assumes "0 < a" "0 < b" "to_double a b = Num v"
  shows "\<exists>m e. v = real m * 2 powi e \<and> m \<le> 2 ^ 53 \<and> - 1074 \<le> e \<and> e \<le> 971
           \<and> \<bar>v - real a / real b\<bar> \<le> 2 powi e / 2
           \<and> (e = - 1074 \<or> 2 powi (e + 52) \<le> real a / real b)"
proof -
  define fl where "fl = floor_log2 a b"
  define e where "e = max (fl - 52) (- 1074)"
  define m where "m = round_half_even (fst (scaled a b e)) (snd (scaled a b e))"
  define x where "x = real a / real b"
  define w where "w = (2::real) powi e"
  have w: "0 < w" by (simp add: w_def zero_less_power_int)
  have td: "to_double a b = (if 971 < e \<or> (e = 971 \<and> 2 ^ 53 \<le> m) then PosInf else Num (real m * w))"
    unfolding to_double_def Let_def fl_def [symmetric] e_def [symmetric] m_def [symmetric] w_def
    using assms(1) by simp
  with assms(3) have v: "v = real m * w" and e971: "e \<le> 971"
    by (auto split: if_splits)
  have fb: "2 powi fl \<le> x" "x < 2 powi (fl + 1)"
    using floor_log2_bounds [OF assms(1,2)] by (simp_all add: fl_def x_def)
  have q: "real (fst (scaled a b e)) / real (snd (scaled a b e)) = x / w"
    unfolding scaled_ratio [OF assms(2)] x_def w_def power_int_minus by (simp add: field_simps)
  have near: "\<bar>real m - x / w\<bar> \<le> 1 / 2"
    using round_half_even_near [of "snd (scaled a b e)" "fst (scaled a b e)"]
      scaled_pos [OF assms(2), of a e]
    unfolding m_def [symmetric] q by simp
  have "\<bar>real m * w - x\<bar> = \<bar>real m - x / w\<bar> * w"
  proof -
    have "real m * w - x = (real m - x / w) * w" using w by (simp add: field_simps)
    then show ?thesis using w by (simp add: abs_mult)
  qed
  also have "\<dots> \<le> 1 / 2 * w" using near w by (intro mult_right_mono) simp_all
  finally have err: "\<bar>v - x\<bar> \<le> w / 2" unfolding v by simp
  have "fl + 1 \<le> e + 53" by (simp add: e_def)
  then have "(2::real) powi (fl + 1) \<le> 2 powi (e + 53)" by (intro power_int_increasing) simp_all
  also have "(2::real) powi (e + 53) = w * 2 ^ 53"
    unfolding w_def using power_int_add [of "2::real" e 53] by simp
  finally have "x < w * 2 ^ 53" using fb(2) by linarith
  then have "x / w < 2 ^ 53" using w by (simp add: field_simps)
  with near have "real m < 2 ^ 53 + 1" by linarith
  then have "real m < real (2 ^ 53 + 1)" by simp
  then have "m < 2 ^ 53 + 1" by (simp only: of_nat_less_iff)
  then have m53: "m \<le> 2 ^ 53" by simp
  have lo: "e = - 1074 \<or> 2 powi (e + 52) \<le> x"
  proof (cases "e = - 1074")
    case False
    then have "e + 52 = fl" by (simp add: e_def max_def split: if_splits)
    with fb(1) show ?thesis by simp
  qed simp
  have "- 1074 \<le> e" by (simp add: e_def)
  with v m53 e971 err lo show ?thesis unfolding w_def x_def by blast
qed

lemma to_double_exact:
  assumes "0 < b" "real a / real b = real m * 2 powi j" "m < 2 ^ 53" "- 1074 \<le> j" "j \<le> 971"
  shows "to_double a b = Num (real a / real b)"
proof (cases "a = 0")
  case True
  then show ?thesis by (simp add: to_double_def)
next
  case False
  then have a: "0 < a" by simp
  define fl where "fl = floor_log2 a b"
  define e where "e = max (fl - 52) (- 1074)"
  define x where "x = real a / real b"
  have fb: "2 powi fl \<le> x" "x < 2 powi (fl + 1)"
    using floor_log2_bounds [OF a assms(1)] by (simp_all add: fl_def x_def)
  have xm: "x = real m * 2 powi j" using assms(2) by (simp add: x_def)
  have pj: "0 < (2::real) powi j" by (simp add: zero_less_power_int)
  have "real m < 2 ^ 53" using assms(3) by (metis of_nat_less_iff of_nat_numeral of_nat_power)
  then have "x < 2 ^ 53 * 2 powi j" unfolding xm using pj by (intro mult_strict_right_mono)
  also have "(2::real) ^ 53 * 2 powi j = 2 powi (j + 53)"
    using power_int_add [of "2::real" j 53] by simp
  finally have "(2::real) powi fl < 2 powi (j + 53)" using fb(1) by linarith
  then have "fl < j + 53" by (rule powi_less_imp_less)
  then have ej: "e \<le> j" using assms(4) by (simp add: e_def)
  define d where "d = nat (j - e)"
  define M where "M = m * 2 ^ d"
  have je: "j = e + int d" using ej by (simp add: d_def)
  have pw: "(2::real) powi j = 2 powi e * 2 ^ d"
    unfolding je using power_int_add [of "2::real" e "int d"] by simp
  have pe: "0 < (2::real) powi e" by (simp add: zero_less_power_int)
  have q: "real (fst (scaled a b e)) / real (snd (scaled a b e)) = real M"
    unfolding scaled_ratio [OF assms(1)] x_def [symmetric] xm pw power_int_minus M_def
    using pe by (simp add: field_simps)
  have r: "round_half_even (fst (scaled a b e)) (snd (scaled a b e)) = M"
    using scaled_pos [OF assms(1), of a e] q by (rule round_half_even_exact)
  have no: "\<not> (971 < e \<or> (e = 971 \<and> 2 ^ 53 \<le> M))"
  proof -
    have "e \<le> 971" using ej assms(5) by simp
    moreover have "\<not> 2 ^ 53 \<le> M" if "e = 971"
    proof -
      from that ej assms(5) have "d = 0" by (simp add: d_def)
      then show ?thesis using assms(3) by (simp add: M_def)
    qed
    ultimately show ?thesis by auto
  qed
  have val: "real M * 2 powi e = x"
    unfolding xm pw M_def by simp
  have "to_double a b = (if 971 < e \<or> (e = 971 \<and> 2 ^ 53 \<le> M) then PosInf else Num (real M * 2 powi e))"
    unfolding to_double_def Let_def fl_def [symmetric] e_def [symmetric] r using False by simp
  with no val show ?thesis by (simp add: x_def)
qed

lemma to_double_overflow:
  assumes "0 < b" "2 ^ 1024 \<le> real a / real b"
  shows "to_double a b = PosInf"
proof -
  have a: "0 < a"
  proof (rule ccontr)
    assume "\<not> 0 < a"
    then have "real a / real b = 0" by simp
    with assms(2) show False by simp
  qed
  define fl where "fl = floor_log2 a b"
  have fb: "real a / real b < 2 powi (fl + 1)"
    using floor_log2_bounds [OF a assms(1)] by (simp add: fl_def)
  have "(2::real) powi 1024 = 2 ^ 1024" using power_int_of_nat [of "2::real" 1024] by simp
  with assms(2) fb have "(2::real) powi 1024 < 2 powi (fl + 1)" by linarith
  then have "1024 < fl + 1" by (rule powi_less_imp_less)
  then have "1023 < fl" by simp
  then show ?thesis
    unfolding to_double_def Let_def fl_def [symmetric] using a by simp
qed

lemma to_double_finite:
  assumes "0 < b" "real a / real b < 2 ^ 1024 - 2 ^ 970"
  shows "\<exists>v. to_double a b = Num v"
proof (cases "a = 0")
  case True
  then show ?thesis by (simp add: to_double_def)
next
  case False
  then have a: "0 < a" by simp
  define fl where "fl = floor_log2 a b"
  define e where "e = max (fl - 52) (- 1074)"
  define m where "m = round_half_even (fst (scaled a b e)) (snd (scaled a b e))"
  define x where "x = real a / real b"
  define w where "w = (2::real) powi e"
  have w: "0 < w" by (simp add: w_def zero_less_power_int)
  have fb: "2 powi fl \<le> x" using floor_log2_bounds [OF a assms(1)] by (simp add: fl_def x_def)
  have p1024: "(2::real) powi 1024 = 2 ^ 1024" using power_int_of_nat [of "2::real" 1024] by simp
  have "x < 2 ^ 1024" using assms(2) by (simp add: x_def)
  with fb p1024 have "(2::real) powi fl < 2 powi 1024" by linarith
  then have "fl < 1024" by (rule powi_less_imp_less)
  then have e971: "e \<le> 971" by (simp add: e_def)
  have q: "real (fst (scaled a b e)) / real (snd (scaled a b e)) = x / w"
    unfolding scaled_ratio [OF assms(1)] x_def w_def power_int_minus by (simp add: field_simps)
  have near: "\<bar>real m - x / w\<bar> \<le> 1 / 2"
    using round_half_even_near [of "snd (scaled a b e)" "fst (scaled a b e)"]
      scaled_pos [OF assms(1), of a e]
    unfolding m_def [symmetric] q by simp
  have m53: "\<not> 2 ^ 53 \<le> m" if "e = 971"
  proof -
    have w971: "w = 2 ^ 971" unfolding w_def that using power_int_of_nat [of "2::real" 971] by simp
    have "x < (2 ^ 53 - 1 / 2) * w" using assms(2) unfolding w971 x_def by simp
    then have "x / w < 2 ^ 53 - 1 / 2" using w by (simp add: field_simps)
    with near have "real m < 2 ^ 53" by linarith
    then have "real m < real (2 ^ 53)" by simp
    then have "m < 2 ^ 53" by (simp only: of_nat_less_iff)
    then show ?thesis by simp
  qed
  have "to_double a b = (if 971 < e \<or> (e = 971 \<and> 2 ^ 53 \<le> m) then PosInf else Num (real m * w))"
    unfolding to_double_def Let_def fl_def [symmetric] e_def [symmetric] m_def [symmetric] w_def
    using False by simp
  with e971 m53 show ?thesis by auto
qed

section \<open>Properties of the conversion of the smallest denomination\<close>

lemma nat_of_base_append:
  "nat_of_base b val (xs @ ys) = nat_of_base b val xs * b ^ length ys + nat_of_base b val ys"
proof (induction ys rule: rev_induct)
  case Nil
  show ?case by (simp add: nat_of_base_def)
next
  case (snoc y ys)
  have "nat_of_base b val (xs @ ys @ [y]) = b * nat_of_base b val (xs @ ys) + val y"
    by (simp add: nat_of_base_def)
  also have "\<dots> = b * (nat_of_base b val xs * b ^ length ys + nat_of_base b val ys) + val y"
    by (simp only: snoc.IH)
  also have "\<dots> = nat_of_base b val xs * b ^ length (ys @ [y]) + nat_of_base b val (ys @ [y])"
    by (simp add: nat_of_base_def algebra_simps)
  finally show ?case by simp
qed

lemma nat_of_digits_append:
  "nat_of_digits (xs @ ys) = nat_of_digits xs * 10 ^ length ys + nat_of_digits ys"
  by (simp add: nat_of_digits_def nat_of_base_append)

lemma digit_val_zero: "digit_val (CHR ''0'') = 0"
  by (simp add: digit_val_def)

lemma nat_of_digits_zeros: "list_all (\<lambda>c. c = CHR ''0'') zs \<Longrightarrow> nat_of_digits zs = 0"
proof (induction zs rule: rev_induct)
  case Nil
  show ?case by (simp add: nat_of_digits_def nat_of_base_def)
next
  case (snoc z zs)
  then show ?case
    by (simp add: nat_of_digits_append) (simp add: nat_of_digits_def nat_of_base_def digit_val_zero)
qed

lemma nat_of_digits_strip:
  "nat_of_digits (dropWhile (\<lambda>c. c = CHR ''0'') s) = nat_of_digits s"
proof -
  define zs where "zs = takeWhile (\<lambda>c. c = CHR ''0'') s"
  define r where "r = dropWhile (\<lambda>c. c = CHR ''0'') s"
  have "\<forall>c\<in>set zs. c = CHR ''0''"
    unfolding zs_def by (auto dest: set_takeWhileD)
  then have z: "nat_of_digits zs = 0"
    by (intro nat_of_digits_zeros) (simp add: list_all_iff)
  have "s = zs @ r" by (simp add: zs_def r_def)
  then have "nat_of_digits s = nat_of_digits zs * 10 ^ length r + nat_of_digits r"
    by (simp only: nat_of_digits_append)
  with z show ?thesis unfolding r_def by simp
qed

lemma nat_of_digits_pad:
  "nat_of_digits (padStart n (CHR ''0'') s) = nat_of_digits s"
  unfolding padStart_def nat_of_digits_append
  by (simp add: nat_of_digits_zeros list_all_iff)

lemma digit_not_space: "is_digit c \<Longrightarrow> \<not> is_space c"
  by (auto simp: is_digit_def is_space_def)

lemma trim_id: "s \<noteq> [] \<Longrightarrow> \<not> is_space (hd s) \<Longrightarrow> \<not> is_space (last s) \<Longrightarrow> trim s = s"
proof -
  assume a: "s \<noteq> []" "\<not> is_space (hd s)" "\<not> is_space (last s)"
  then have 1: "dropWhile is_space s = s" by (cases s) auto
  from a have "rev s \<noteq> []" "\<not> is_space (hd (rev s))" by (simp_all add: hd_rev)
  then have 2: "dropWhile is_space (rev s) = rev s" by (cases "rev s") auto
  show ?thesis by (simp add: trim_def 1 2)
qed

lemma unsigned_decimal_point:
  assumes "list_all is_digit a" "list_all is_digit b" "a \<noteq> []" "b \<noteq> []"
  shows "unsigned_decimal (a @ ''.'' @ b) = Some (nat_of_digits (a @ b), 10 ^ length b)"
proof -
  have nd: "\<not> is_digit (CHR ''.'')" by (simp add: is_digit_def)
  from assms(1) have da: "\<forall>c\<in>set a. is_digit c" by (simp add: list_all_iff)
  from assms(2) have db: "\<forall>c\<in>set b. is_digit c" by (simp add: list_all_iff)
  have t1: "takeWhile is_digit (a @ ''.'' @ b) = a"
    using da nd by (simp add: takeWhile_append2)
  have d1: "dropWhile is_digit (a @ ''.'' @ b) = ''.'' @ b"
    using da nd by (simp add: dropWhile_append2)
  have t2: "takeWhile is_digit b = b" using db by simp
  have d2: "dropWhile is_digit b = []" using db by simp
  have k: "\<not> 0 \<le> 0 - int (length b)" "nat (- (0 - int (length b))) = length b"
    using assms(4) by simp_all
  show ?thesis
    unfolding unsigned_decimal_def t1 d1 Let_def
    using assms(3) k by (simp add: t2 d2 exponent_part_def)
qed

lemma Number_str_point:
  assumes "list_all is_digit a" "list_all is_digit b" "a \<noteq> []"
    and "hd a \<noteq> CHR ''0'' \<or> a = ''0''"
    and "b \<noteq> []"
  shows "Number_str (a @ ''.'' @ b) = to_double (nat_of_digits (a @ b)) (10 ^ length b)"
proof -
  let ?x = "a @ ''.'' @ b"
  from assms(1,3) have ha: "is_digit (hd a)" by (cases a) simp_all
  have hx: "hd ?x = hd a" using assms(3) by simp
  have lx: "is_digit (last ?x) \<or> last ?x = CHR ''.''"
    using assms(2) by (cases b rule: rev_cases) (simp_all add: list_all_iff)
  have nsp: "\<not> is_space (CHR ''.'')" by (simp add: is_space_def)
  have tr: "trim ?x = ?x"
  proof (rule trim_id)
    show "?x \<noteq> []" by simp
    show "\<not> is_space (hd ?x)" using ha hx digit_not_space by simp
    show "\<not> is_space (last ?x)" using lx nsp digit_not_space by auto
  qed
  have nd: "non_decimal ?x = None"
  proof (cases a)
    case Nil
    with assms(3) show ?thesis by simp
  next
    case (Cons c cs)
    show ?thesis
    proof (cases "c = CHR ''0''")
      case False
      then show ?thesis
        unfolding Cons non_decimal_def by (cases "cs @ ''.'' @ b") simp_all
    next
      case True
      with assms(4) Cons have "cs = []" by simp
      with True Cons show ?thesis by (simp add: non_decimal_def)
    qed
  qed
  have sg: "hd ?x \<noteq> CHR ''-''" "hd ?x \<noteq> CHR ''+''" "hd ?x \<noteq> CHR ''I''"
    using ha hx by (auto simp: is_digit_def)
  have inf: "?x \<noteq> ''Infinity''"
    using sg(3) by (metis list.sel(1))
  have "str_decimal ?x = to_double (nat_of_digits (a @ b)) (10 ^ length b)"
    unfolding str_decimal_def Let_def
    using sg inf unsigned_decimal_point [OF assms(1,2,3,5)] by simp
  then show ?thesis
    unfolding Number_str_def Let_def tr nd by simp
qed

lemma attoToFIL_digits:
  assumes "list_all is_digit s"
  shows "attoToFIL s = to_double (nat_of_digits s) (10 ^ 18)"
proof -
  define st where "st = dropWhile (\<lambda>c. c = CHR ''0'') s"
  have ds: "list_all is_digit st"
    using assms unfolding st_def list_all_iff by (blast dest: set_dropWhileD)
  have v: "nat_of_digits st = nat_of_digits s"
    unfolding st_def by (rule nat_of_digits_strip)
  have hd0: "st \<noteq> [] \<Longrightarrow> hd st \<noteq> CHR ''0''"
    unfolding st_def by (rule hd_dropWhile)
  have unf: "attoToFIL s =
     (if length st = 0 then Num 0
      else if length st \<le> 18 then Number_str (''0.'' @ padStart 18 (CHR ''0'') st)
      else Number_str (take (length st - 18) st @ ''.'' @ drop (length st - 18) st))"
    unfolding attoToFIL_def st_def Let_def by (rule refl)
  consider (empty) "st = []" | (short) "st \<noteq> []" "length st \<le> 18" | (long) "18 < length st"
    by (cases "st = []") (simp, linarith)
  then show ?thesis
  proof cases
    case empty
    have "nat_of_digits s = nat_of_digits st" by (rule v [symmetric])
    also have "\<dots> = 0" unfolding empty by (simp add: nat_of_digits_def nat_of_base_def)
    finally have "to_double (nat_of_digits s) (10 ^ 18) = Num 0" by (simp add: to_double_def)
    then show ?thesis unfolding unf using empty by simp
  next
    case short
    define f where "f = padStart 18 (CHR ''0'') st"
    have lf: "length f = 18" using short(2) by (simp add: f_def padStart_def)
    have fne: "f \<noteq> []" using lf by auto
    have d0: "is_digit (CHR ''0'')" by (simp add: is_digit_def)
    have df: "list_all is_digit f"
      using ds d0 unfolding f_def padStart_def list_all_iff by auto
    have vf: "nat_of_digits f = nat_of_digits s"
      unfolding f_def by (simp only: nat_of_digits_pad v)
    have z: "nat_of_digits ''0'' = 0"
      by (simp add: nat_of_digits_def nat_of_base_def digit_val_def)
    have "Number_str (''0'' @ ''.'' @ f) = to_double (nat_of_digits (''0'' @ f)) (10 ^ length f)"
      using d0 df fne by (intro Number_str_point) simp_all
    also have "nat_of_digits (''0'' @ f) = nat_of_digits s"
      unfolding nat_of_digits_append z vf by simp
    finally have "Number_str (''0.'' @ f) = to_double (nat_of_digits s) (10 ^ 18)"
      unfolding lf by simp
    then show ?thesis unfolding unf f_def using short by simp
  next
    case long
    define a where "a = take (length st - 18) st"
    define b where "b = drop (length st - 18) st"
    have ne: "st \<noteq> []" using long by (cases st) simp_all
    have la: "a \<noteq> []" using long ne by (simp add: a_def)
    have lb: "length b = 18" using long by (simp add: b_def)
    have bne: "b \<noteq> []" using lb by auto
    have da: "list_all is_digit a"
      using ds unfolding a_def list_all_iff by (blast dest: in_set_takeD)
    have db: "list_all is_digit b"
      using ds unfolding b_def list_all_iff by (blast dest: in_set_dropD)
    have ab: "a @ b = st" by (simp add: a_def b_def)
    from ne have "hd st \<noteq> CHR ''0''" by (rule hd0)
    moreover have "hd a = hd st" using la ab by (metis hd_append2)
    ultimately have h: "hd a \<noteq> CHR ''0'' \<or> a = ''0''" by simp
    have "Number_str (a @ ''.'' @ b) = to_double (nat_of_digits (a @ b)) (10 ^ length b)"
      using da db la h bne by (rule Number_str_point)
    then have "Number_str (a @ ''.'' @ b) = to_double (nat_of_digits s) (10 ^ 18)"
      unfolding ab v lb .
    then show ?thesis unfolding unf a_def b_def using long ne by simp
  qed
qed

text \<open>
  C7, as the code has it. For every string \<open>s\<close> of decimal digits, of any length, with
  \<open>n\<close> the integer it denotes: the conversion cuts the text 18 places from its end and hands
  the decimal literal to \<^verbatim>\<open>Number\<close> once, so the result is the rounding of the exact value
  \<open>n / 10 ^ 18\<close> to a double (no division is made and \<open>n\<close> itself is never rounded). The
  result is therefore within half a unit in the last place of \<open>n / 10 ^ 18\<close>, and it is
  \<open>n / 10 ^ 18\<close> itself whenever that value is a double; it is finite for a value below
  \<open>2 ^ 1024 - 2 ^ 970\<close> and \<^verbatim>\<open>Infinity\<close> for a value from \<open>2 ^ 1024\<close> on. The text \<^verbatim>\<open>1500000000000000000\<close>
  gives exactly 1.5; the text \<^verbatim>\<open>5\<close> gives the double nearest to 0.000000000000000005,
  the value of the literal \<^verbatim>\<open>0.000000000000000005\<close>, which is \<open>6490371073168535 / 2 ^ 110\<close>.
\<close>

theorem attoToFIL_rounds_once:
  "(list_all is_digit s \<longrightarrow> attoToFIL s = to_double (nat_of_digits s) (10 ^ 18))
   \<and> (list_all is_digit s \<and> 0 < nat_of_digits s \<and> attoToFIL s = Num v \<longrightarrow>
        (\<exists>m e. v = real m * 2 powi e \<and> m \<le> 2 ^ 53 \<and> - 1074 \<le> e \<and> e \<le> 971
           \<and> \<bar>v - real (nat_of_digits s) / 10 ^ 18\<bar> \<le> 2 powi e / 2
           \<and> (e = - 1074 \<or> 2 powi (e + 52) \<le> real (nat_of_digits s) / 10 ^ 18)))
   \<and> (list_all is_digit s \<and> real (nat_of_digits s) / 10 ^ 18 = real k * 2 powi j
        \<and> k < 2 ^ 53 \<and> - 1074 \<le> j \<and> j \<le> 971 \<longrightarrow>
        attoToFIL s = Num (real (nat_of_digits s) / 10 ^ 18))
   \<and> (list_all is_digit s \<and> real (nat_of_digits s) / 10 ^ 18 < 2 ^ 1024 - 2 ^ 970 \<longrightarrow>
        isFinite (attoToFIL s))
   \<and> (list_all is_digit s \<and> 2 ^ 1024 \<le> real (nat_of_digits s) / 10 ^ 18 \<longrightarrow>
        attoToFIL s = PosInf)
   \<and> attoToFIL ''1500000000000000000'' = Num 1.5
   \<and> attoToFIL ''5'' = Number_str ''0.000000000000000005''
   \<and> attoToFIL ''5'' = Num (6490371073168535 / 2 ^ 110)"
proof -
  have 1: "attoToFIL s = to_double (nat_of_digits s) (10 ^ 18)" if "list_all is_digit s"
    using that by (rule attoToFIL_digits)
  have 2: "\<exists>m e. v = real m * 2 powi e \<and> m \<le> 2 ^ 53 \<and> - 1074 \<le> e \<and> e \<le> 971
           \<and> \<bar>v - real (nat_of_digits s) / 10 ^ 18\<bar> \<le> 2 powi e / 2
           \<and> (e = - 1074 \<or> 2 powi (e + 52) \<le> real (nat_of_digits s) / 10 ^ 18)"
    if "list_all is_digit s" "0 < nat_of_digits s" "attoToFIL s = Num v"
  proof -
    have "to_double (nat_of_digits s) (10 ^ 18) = Num v" using that(1,3) by (simp add: 1)
    from to_double_near [OF that(2) _ this] show ?thesis by simp
  qed
  have 3: "attoToFIL s = Num (real (nat_of_digits s) / 10 ^ 18)"
    if "list_all is_digit s" "real (nat_of_digits s) / 10 ^ 18 = real k * 2 powi j"
      "k < 2 ^ 53" "- 1074 \<le> j" "j \<le> 971"
  proof -
    have "to_double (nat_of_digits s) (10 ^ 18) = Num (real (nat_of_digits s) / real (10 ^ 18))"
      using that(2-5) by (intro to_double_exact [of _ _ k j]) simp_all
    then show ?thesis using that(1) by (simp add: 1)
  qed
  have 31: "isFinite (attoToFIL s)"
    if "list_all is_digit s" "real (nat_of_digits s) / 10 ^ 18 < 2 ^ 1024 - 2 ^ 970"
  proof -
    have "\<exists>v. to_double (nat_of_digits s) (10 ^ 18) = Num v"
      using that(2) by (intro to_double_finite) simp_all
    then show ?thesis using that(1) by (auto simp: 1)
  qed
  have 32: "attoToFIL s = PosInf"
    if "list_all is_digit s" "2 ^ 1024 \<le> real (nat_of_digits s) / 10 ^ 18"
  proof -
    have "to_double (nat_of_digits s) (10 ^ 18) = PosInf"
      using that(2) by (intro to_double_overflow) simp_all
    then show ?thesis using that(1) by (simp add: 1)
  qed
  have d: "list_all is_digit ''1500000000000000000''" "list_all is_digit ''5''"
    by (simp_all add: is_digit_def)
  have n: "nat_of_digits ''1500000000000000000'' = 1500000000000000000" "nat_of_digits ''5'' = 5"
    by (simp_all add: nat_of_digits_def nat_of_base_def digit_val_def)
  have 4: "attoToFIL ''1500000000000000000'' = Num 1.5"
  proof -
    have "to_double 1500000000000000000 (10 ^ 18) = Num (real 1500000000000000000 / real (10 ^ 18))"
      by (rule to_double_exact [of _ _ 3 "- 1"]) simp_all
    then show ?thesis unfolding attoToFIL_digits [OF d(1)] n(1) by simp
  qed
  have 5: "attoToFIL ''5'' = Number_str ''0.000000000000000005''"
  proof -
    have "replicate 17 (CHR ''0'') = ''00000000000000000''"
      by (simp add: eval_nat_numeral)
    then show ?thesis by (simp add: attoToFIL_def padStart_def)
  qed
  have 6: "attoToFIL ''5'' = Num (6490371073168535 / 2 ^ 110)"
    unfolding attoToFIL_digits [OF d(2)] n(2)
    by (simp add: to_double_eval [of _ _ "- 58"] scaled_def round_half_even_def)
  from 1 2 3 31 32 4 5 6 show ?thesis by blast
qed

theorem attoToFIL_rounds_once_witness:
  "list_all is_digit ''2500000000000000000''
   \<and> 0 < nat_of_digits ''2500000000000000000''
   \<and> real (nat_of_digits ''2500000000000000000'') / 10 ^ 18 = real 5 * 2 powi (- 1)
   \<and> (5::nat) < 2 ^ 53
   \<and> real (nat_of_digits ''2500000000000000000'') / 10 ^ 18 < 2 ^ 1024 - 2 ^ 970
   \<and> attoToFIL ''2500000000000000000'' = Num 2.5
   \<and> list_all is_digit (CHR ''1'' # replicate 327 (CHR ''0''))
   \<and> 2 ^ 1024 \<le> real (nat_of_digits (CHR ''1'' # replicate 327 (CHR ''0''))) / 10 ^ 18
   \<and> attoToFIL (CHR ''1'' # replicate 327 (CHR ''0'')) = PosInf"
proof -
  have d: "list_all is_digit ''2500000000000000000''"
    by (simp add: is_digit_def)
  have n: "nat_of_digits ''2500000000000000000'' = 2500000000000000000"
    by (simp add: nat_of_digits_def nat_of_base_def digit_val_def)
  have p: "0 < nat_of_digits ''2500000000000000000''" unfolding n by simp
  have r: "real (nat_of_digits ''2500000000000000000'') / 10 ^ 18 = real 5 * 2 powi (- 1)"
    unfolding n by simp
  have k: "(5::nat) < 2 ^ 53" by simp
  have f: "real (nat_of_digits ''2500000000000000000'') / 10 ^ 18 < 2 ^ 1024 - 2 ^ 970"
    unfolding n by simp
  note c = attoToFIL_rounds_once [of "''2500000000000000000''" "5 / 2" 5 "- 1",
      THEN conjunct2, THEN conjunct2, THEN conjunct1]
  have "list_all is_digit ''2500000000000000000''
      \<and> real (nat_of_digits ''2500000000000000000'') / 10 ^ 18 = real 5 * 2 powi (- 1)
      \<and> (5::nat) < 2 ^ 53 \<and> (- 1074::int) \<le> - 1 \<and> (- 1::int) \<le> 971"
    by (intro conjI d r k) simp_all
  with c
  have "attoToFIL ''2500000000000000000'' = Num (real (nat_of_digits ''2500000000000000000'') / 10 ^ 18)"
    by (rule mp)
  then have v: "attoToFIL ''2500000000000000000'' = Num 2.5" unfolding n by simp
  have dz: "list_all is_digit (CHR ''1'' # replicate 327 (CHR ''0''))"
    by (simp add: is_digit_def list_all_iff)
  have "nat_of_digits ([CHR ''1''] @ replicate 327 (CHR ''0'')) = 10 ^ 327"
    unfolding nat_of_digits_append
    by (simp add: nat_of_digits_zeros list_all_iff)
      (simp add: nat_of_digits_def nat_of_base_def digit_val_def)
  then have nz: "nat_of_digits (CHR ''1'' # replicate 327 (CHR ''0'')) = 10 ^ 327" by simp
  have big: "2 ^ 1024 \<le> real (nat_of_digits (CHR ''1'' # replicate 327 (CHR ''0''))) / 10 ^ 18"
    unfolding nz by simp
  note o = attoToFIL_rounds_once [of "CHR ''1'' # replicate 327 (CHR ''0'')" 0 0 0,
      THEN conjunct2, THEN conjunct2, THEN conjunct2, THEN conjunct2, THEN conjunct1]
  from dz big have "list_all is_digit (CHR ''1'' # replicate 327 (CHR ''0''))
      \<and> 2 ^ 1024 \<le> real (nat_of_digits (CHR ''1'' # replicate 327 (CHR ''0''))) / 10 ^ 18"
    by (rule conjI)
  with o have inf: "attoToFIL (CHR ''1'' # replicate 327 (CHR ''0'')) = PosInf" by (rule mp)
  from d p r k f v dz big inf show ?thesis by blast
qed

text \<open>
  The statement that arbitrary-precision digit strings are converted without loss in the
  integer part fails: the result is a double. The digit string of \<open>2 ^ 53 + 1\<close> units,
  whose exact value is the integer 9007199254740993, gives 9007199254740992, and the
  digit string of 2500.000000000000000042 units gives 2500.
\<close>

theorem attoToFIL_integer_part_counterexample:
  "list_all is_digit ''9007199254740993000000000000000000''
   \<and> real (nat_of_digits ''9007199254740993000000000000000000'') / 10 ^ 18 = 9007199254740993
   \<and> attoToFIL ''9007199254740993000000000000000000'' = Num 9007199254740992
   \<and> attoToFIL ''2500000000000000000042'' = Num 2500"
proof -
  have d: "list_all is_digit ''9007199254740993000000000000000000''"
    "list_all is_digit ''2500000000000000000042''"
    by (simp_all add: is_digit_def)
  have n: "nat_of_digits ''9007199254740993000000000000000000'' = 9007199254740993000000000000000000"
    "nat_of_digits ''2500000000000000000042'' = 2500000000000000000042"
    by (simp_all add: nat_of_digits_def nat_of_base_def digit_val_def)
  have 1: "attoToFIL ''9007199254740993000000000000000000'' = Num 9007199254740992"
    unfolding attoToFIL_digits [OF d(1)] n(1)
    by (simp add: to_double_eval [of _ _ 53] scaled_def round_half_even_def)
  have 2: "attoToFIL ''2500000000000000000042'' = Num 2500"
    unfolding attoToFIL_digits [OF d(2)] n(2)
    by (simp add: to_double_eval [of _ _ 11] scaled_def round_half_even_def)
  have 3: "real (nat_of_digits ''9007199254740993000000000000000000'') / 10 ^ 18 = 9007199254740993"
    unfolding n(1) by simp
  from d(1) 1 2 3 show ?thesis by blast
qed

text \<open>
  C10. For every string made of the digit zero only, the empty string included, the
  conversion returns 0: the leading zeros are stripped and nothing is left.
\<close>

theorem attoToFIL_zeros:
  "(list_all (\<lambda>c. c = CHR ''0'') s \<longrightarrow> attoToFIL s = Num 0)
   \<and> attoToFIL ''0'' = Num 0 \<and> attoToFIL ''000'' = Num 0 \<and> attoToFIL [] = Num 0"
proof -
  have z: "attoToFIL s = Num 0" if "list_all (\<lambda>c. c = CHR ''0'') s" for s
  proof -
    from that have "dropWhile (\<lambda>c. c = CHR ''0'') s = []" by (simp add: list_all_iff)
    then show ?thesis by (simp add: attoToFIL_def)
  qed
  have "attoToFIL ''0'' = Num 0" "attoToFIL ''000'' = Num 0" "attoToFIL [] = Num 0"
    by (rule z, simp)+
  with z show ?thesis by blast
qed

theorem attoToFIL_zeros_witness:
  "list_all (\<lambda>c. c = CHR ''0'') ''00000'' \<and> attoToFIL ''00000'' = Num 0"
proof -
  have d: "list_all (\<lambda>c. c = CHR ''0'') ''00000''" by simp
  with attoToFIL_zeros [of "''00000''"] show ?thesis by blast
qed

section \<open>Properties of the windowed percent change\<close>

lemma find_ref_filter:
  "find_ref c xs r = (case filter (\<lambda>s. c \<le> t s) xs of [] \<Rightarrow> r | y # _ \<Rightarrow> y)"
  by (induction xs) simp_all

lemma find_ref_spec_ref:
  "buf \<noteq> [] \<Longrightarrow> find_ref (now - w) buf (buf ! 0) = spec_ref now w buf"
  by (simp add: find_ref_filter spec_ref_def hd_conv_nth split: list.split)

lemma pctChangeSinceMs_unfold:
  "pctChangeSinceMs now buf w =
     (if buf = [] \<or> p (spec_ref now w buf) = Num 0 \<or> \<not> isFinite (p (spec_ref now w buf))
         \<or> \<not> isFinite (p (last buf))
      then NaN
      else js_mul (js_div (js_sub (p (last buf)) (p (spec_ref now w buf))) (p (spec_ref now w buf)))
             (Num 100))"
proof (cases "buf = []")
  case True
  then show ?thesis by (simp add: pctChangeSinceMs_def)
next
  case False
  then have l: "buf ! (length buf - 1) = last buf" by (simp add: last_conv_nth)
  from False show ?thesis
    unfolding pctChangeSinceMs_def Let_def l find_ref_spec_ref [OF False] by auto
qed

lemma pct_finite:
  "a \<noteq> 0 \<Longrightarrow> js_mul (js_div (js_sub (Num b) (Num a)) (Num a)) (Num 100) = Num ((b - a) / a * 100)"
  by (simp add: js_sub_def)

lemma spec_ref_earliest:
  assumes "sorted (map t buf)" "s \<in> set buf" "now - w \<le> t s"
  shows "now - w \<le> t (spec_ref now w buf) \<and> t (spec_ref now w buf) \<le> t s"
proof -
  let ?F = "filter (\<lambda>s. now - w \<le> t s) buf"
  from assms(2,3) have sF: "s \<in> set ?F" by simp
  then obtain r rs where F: "?F = r # rs" by (cases ?F) auto
  then have r: "spec_ref now w buf = r" by (simp add: spec_ref_def)
  have "r \<in> set ?F" using F by simp
  then have 1: "now - w \<le> t r" by simp
  have "sorted (map t ?F)" using assms(1) by (rule sorted_filter)
  then have "\<forall>x\<in>set rs. t r \<le> t x" unfolding F by simp
  with sF have 2: "t r \<le> t s" unfolding F by auto
  from 1 2 show ?thesis unfolding r by simp
qed

lemma spec_ref_oldest:
  assumes "list_all (\<lambda>s. t s < now - w) buf"
  shows "spec_ref now w buf = hd buf"
proof -
  from assms have "filter (\<lambda>s. now - w \<le> t s) buf = []"
    by (simp add: list_all_iff filter_empty_conv not_le)
  then show ?thesis by (simp add: spec_ref_def)
qed

text \<open>
  C2. On every buffer, clock reading and window \<open>w\<close>: the result is
  \<open>(last.p - ref.p) / ref.p * 100\<close>, where \<open>ref\<close> is the earliest retained sample whose time
  is at least \<open>now - w\<close> (the first such sample of the buffer; with the buffer in time
  order none that qualifies is earlier) and the oldest retained sample when there is none;
  it is NaN (the code's undefined) exactly when the buffer is empty, the price of \<open>ref\<close>
  is zero, or one of the two prices is not finite; with finite prices \<open>a\<close> (not zero) and
  \<open>b\<close> it is the number \<open>(b - a) / a * 100\<close>. On the buffer of the samples \<open>(t0, 100)\<close> and
  \<open>(t1, 110)\<close> with a window that reaches \<open>t0\<close> it is exactly 10.
\<close>

theorem pctChangeSinceMs_spec:
  "pctChangeSinceMs now buf w =
     (if buf = [] \<or> p (spec_ref now w buf) = Num 0 \<or> \<not> isFinite (p (spec_ref now w buf))
         \<or> \<not> isFinite (p (last buf))
      then NaN
      else js_mul (js_div (js_sub (p (last buf)) (p (spec_ref now w buf))) (p (spec_ref now w buf)))
             (Num 100))
   \<and> ((pctChangeSinceMs now buf w = NaN) =
        (buf = [] \<or> p (spec_ref now w buf) = Num 0 \<or> \<not> isFinite (p (spec_ref now w buf))
         \<or> \<not> isFinite (p (last buf))))
   \<and> (buf \<noteq> [] \<and> p (spec_ref now w buf) = Num a \<and> a \<noteq> 0 \<and> p (last buf) = Num b \<longrightarrow>
        pctChangeSinceMs now buf w = Num ((b - a) / a * 100))
   \<and> (sorted (map t buf) \<and> s \<in> set buf \<and> now - w \<le> t s \<longrightarrow>
        now - w \<le> t (spec_ref now w buf) \<and> t (spec_ref now w buf) \<le> t s)
   \<and> (list_all (\<lambda>s. t s < now - w) buf \<longrightarrow> spec_ref now w buf = hd buf)
   \<and> (now - w \<le> t0 \<longrightarrow>
        pctChangeSinceMs now [\<lparr>t = t0, p = Num 100\<rparr>, \<lparr>t = t1, p = Num 110\<rparr>] w = Num 10)"
proof -
  let ?r = "p (spec_ref now w buf)" and ?l = "p (last buf)"
  have nan: "(pctChangeSinceMs now buf w = NaN) =
      (buf = [] \<or> ?r = Num 0 \<or> \<not> isFinite ?r \<or> \<not> isFinite ?l)"
  proof (cases "buf = [] \<or> ?r = Num 0 \<or> \<not> isFinite ?r \<or> \<not> isFinite ?l")
    case True
    then show ?thesis by (simp add: pctChangeSinceMs_unfold [of now buf w])
  next
    case False
    then obtain a b where ab: "?r = Num a" "?l = Num b" "a \<noteq> 0"
      by (cases ?r; cases ?l) auto
    have "pctChangeSinceMs now buf w = Num ((b - a) / a * 100)"
      using False ab by (simp add: pctChangeSinceMs_unfold [of now buf w] pct_finite)
    with False show ?thesis by simp
  qed
  have fin: "pctChangeSinceMs now buf w = Num ((b - a) / a * 100)"
    if "buf \<noteq> []" "?r = Num a" "a \<noteq> 0" "?l = Num b"
    using that by (simp add: pctChangeSinceMs_unfold [of now buf w] pct_finite)
  have ex: "pctChangeSinceMs now [\<lparr>t = t0, p = Num 100\<rparr>, \<lparr>t = t1, p = Num 110\<rparr>] w = Num 10"
    if "now - w \<le> t0"
    using that by (simp add: pctChangeSinceMs_def js_sub_def)
  from pctChangeSinceMs_unfold [of now buf w] nan fin ex
    spec_ref_earliest [of buf s now w] spec_ref_oldest [of now w buf]
  show ?thesis by blast
qed

theorem pctChangeSinceMs_spec_witness:
  "pctChangeSinceMs 5000 [\<lparr>t = 1000, p = Num 50\<rparr>, \<lparr>t = 4500, p = Num 80\<rparr>, \<lparr>t = 4900, p = Num 100\<rparr>] 1000
     = Num 25
   \<and> 5000 - 3600000 \<le> (1000::int)
   \<and> pctChangeSinceMs 5000 [\<lparr>t = 1000, p = Num 100\<rparr>, \<lparr>t = 2000, p = Num 110\<rparr>] 3600000 = Num 10"
proof -
  let ?buf = "[\<lparr>t = 1000, p = Num 50\<rparr>, \<lparr>t = 4500, p = Num 80\<rparr>, \<lparr>t = 4900, p = Num 100\<rparr>]"
  have r: "spec_ref 5000 1000 ?buf = \<lparr>t = 4500, p = Num 80\<rparr>"
    by (simp add: spec_ref_def)
  have "pctChangeSinceMs 5000 ?buf 1000 = Num ((100 - 80) / 80 * 100)"
    using pctChangeSinceMs_spec [of 5000 ?buf 1000 80 100 "\<lparr>t = 4500, p = Num 80\<rparr>" 0 0]
    by (simp add: r js_sub_def)
  moreover have "pctChangeSinceMs 5000 [\<lparr>t = 1000, p = Num 100\<rparr>, \<lparr>t = 2000, p = Num 110\<rparr>] 3600000 = Num 10"
    using pctChangeSinceMs_spec [of 5000 "[]" 3600000 1 1 "\<lparr>t = 4500, p = Num 80\<rparr>" 1000 2000] by simp
  ultimately show ?thesis by simp
qed

section \<open>Properties of the price sources\<close>

lemma coinbase_onmessage_cases:
  "coinbase_onmessage N now ev st = st
   \<or> (\<exists>px. isFinite px
         \<and> coinbase_onmessage N now ev st
             = st\<lparr>lastPrice := px, priceBuffer := pushPrice N (priceBuffer st) now px\<rparr>)"
  by (auto simp: coinbase_onmessage_def Let_def split: option.split)

lemma kraken_onmessage_cases:
  "kraken_onmessage N now ev st = st
   \<or> (\<exists>px. isFinite px
         \<and> kraken_onmessage N now ev st
             = st\<lparr>lastPrice := px, priceBuffer := pushPrice N (priceBuffer st) now px\<rparr>)"
  by (auto simp: kraken_onmessage_def Let_def split: option.split)

lemma poll_cases:
  "poll N cfg now a b c st = st
   \<or> (\<exists>px. isFinite px
         \<and> poll N cfg now a b c st
             = st\<lparr>lastPrice := px, priceBuffer := pushPrice N (priceBuffer st) now px\<rparr>)"
  unfolding poll_def by (simp split: option.split) blast

lemma pushPrice_as_drop:
  "pushPrice N buf ts px
     = drop (length (buf @ [\<lparr>t = ts, p = px\<rparr>]) - N) (buf @ [\<lparr>t = ts, p = px\<rparr>])"
  unfolding pushPrice_def Let_def by (rule keep_last_drop)

lemma pushPrice_subset: "set (pushPrice N buf ts px) \<subseteq> insert \<lparr>t = ts, p = px\<rparr> (set buf)"
proof -
  have "set (pushPrice N buf ts px) \<subseteq> set (buf @ [\<lparr>t = ts, p = px\<rparr>])"
    unfolding pushPrice_as_drop by (rule set_drop_subset)
  then show ?thesis by simp
qed

lemma price_inv_accept:
  assumes "price_inv N st" "isFinite px"
  shows "price_inv N (st\<lparr>lastPrice := px, priceBuffer := pushPrice N (priceBuffer st) now px\<rparr>)"
proof -
  have "\<forall>s\<in>set (pushPrice N (priceBuffer st) now px). isFinite (p s)"
    using assms pushPrice_subset [of N "priceBuffer st" now px]
    by (auto simp: price_inv_def list_all_iff)
  then show ?thesis
    using assms(2) by (simp add: price_inv_def list_all_iff pushPrice_length)
qed

lemma maybeAlert_frame:
  "snd (maybeAlert cfg now price st) = st \<or> snd (maybeAlert cfg now price st) = st\<lparr>lastAlertTs := now\<rparr>"
  by (simp add: maybeAlert_def Let_def)

lemma render_frame:
  "snd (snd (render cfg now st)) = st \<or> snd (snd (render cfg now st)) = st\<lparr>lastAlertTs := now\<rparr>"
  using maybeAlert_frame [of cfg now "lastPrice st" st] by (auto simp: render_def)

lemma refresh24hStats_frame: "\<exists>s. refresh24hStats r st = st\<lparr>stats24 := s\<rparr>"
proof (cases "refresh24hStats r st = st")
  case True
  then have "refresh24hStats r st = st\<lparr>stats24 := stats24 st\<rparr>" by simp
  then show ?thesis by blast
next
  case False
  then show ?thesis
    by (auto simp: refresh24hStats_def Let_def split: stats_response.splits if_splits)
qed

lemma refreshQty_result:
  "refreshQty cfg balance st = st\<lparr>cachedQty := fst (fetchExodusQtyFIL cfg balance st)\<rparr>"
  by (simp add: refreshQty_def fetchExodusQtyFIL_def Let_def)

lemma refreshQty_frame: "\<exists>c. refreshQty cfg balance st = st\<lparr>cachedQty := c\<rparr>"
  using refreshQty_result by blast

lemma price_inv_step: "price_inv N st \<Longrightarrow> price_inv N (step N cfg e st)"
proof (cases e)
  case (Pair now ev)
  assume inv: "price_inv N st"
  show ?thesis
  proof (cases ev)
    case (CoinbaseMessage m)
    with Pair inv coinbase_onmessage_cases [of N now m st] show ?thesis
      by (auto simp: price_inv_accept)
  next
    case (KrakenMessage v)
    with Pair inv kraken_onmessage_cases [of N now v st] show ?thesis
      by (auto simp: price_inv_accept)
  next
    case (RestPoll a b c)
    with Pair inv poll_cases [of N cfg now a b c st] show ?thesis
      by (auto simp: price_inv_accept)
  next
    case (RefreshQty balance)
    obtain c where "refreshQty cfg balance st = st\<lparr>cachedQty := c\<rparr>"
      using refreshQty_frame by blast
    with Pair RefreshQty inv show ?thesis by (simp add: price_inv_def)
  next
    case (RefreshStats r)
    obtain s where "refresh24hStats r st = st\<lparr>stats24 := s\<rparr>"
      using refresh24hStats_frame by blast
    with Pair RefreshStats inv show ?thesis by (simp add: price_inv_def)
  next
    case RenderTick
    with Pair inv render_frame [of cfg now st] show ?thesis
      by (auto simp: price_inv_def)
  qed
qed

lemma price_inv_run: "price_inv N st \<Longrightarrow> price_inv N (run N cfg evs st)"
  by (induction evs arbitrary: st) (simp_all add: price_inv_step)

lemma price_inv_init: "price_inv N init_state"
  by (simp add: price_inv_def init_state_def)

lemma Number_str_zero: "Number_str ''0'' = Num 0"
  by (simp add: Number_str_def trim_def is_space_def non_decimal_def str_decimal_def
      unsigned_decimal_def is_digit_def exponent_part_def nat_of_digits_def nat_of_base_def
      digit_val_def to_double_def)

text \<open>
  C6, as the code has it. Each of the three sources either leaves the state as it was or
  accepts a price \<open>px\<close> that is finite, stores it as the current price and appends it to
  the buffer; so in every state the program reaches from its initial state every buffered
  price is finite and the current price is finite or still NaN. The sign of \<open>px\<close> is not
  tested: a matching ticker message, a Kraken message and a polling response that carry a
  negative finite number are accepted. A zero is accepted from a polling response and,
  as the text \<^verbatim>\<open>0\<close>, from a message; the two message handlers ignore only the number 0,
  which is falsy.
\<close>

theorem accepted_price_finite:
  "(coinbase_onmessage N now m st = st
    \<or> (\<exists>px. isFinite px
          \<and> coinbase_onmessage N now m st
              = st\<lparr>lastPrice := px, priceBuffer := pushPrice N (priceBuffer st) now px\<rparr>))
   \<and> (kraken_onmessage N now v st = st
    \<or> (\<exists>px. isFinite px
          \<and> kraken_onmessage N now v st
              = st\<lparr>lastPrice := px, priceBuffer := pushPrice N (priceBuffer st) now px\<rparr>))
   \<and> (poll N cfg now a b c st = st
    \<or> (\<exists>px. isFinite px
          \<and> poll N cfg now a b c st
              = st\<lparr>lastPrice := px, priceBuffer := pushPrice N (priceBuffer st) now px\<rparr>))
   \<and> price_inv N (run N cfg evs init_state)
   \<and> (x < 0 \<longrightarrow>
        coinbase_onmessage N now
          (Some \<lparr>m_type = JStr ''ticker'', m_product_id = JStr ''FIL-USD'', m_price = JNum (Num x)\<rparr>) st
          = st\<lparr>lastPrice := Num x, priceBuffer := pushPrice N (priceBuffer st) now (Num x)\<rparr>
        \<and> kraken_onmessage N now (Some (JNum (Num x))) st
          = st\<lparr>lastPrice := Num x, priceBuffer := pushPrice N (priceBuffer st) now (Num x)\<rparr>)
   \<and> (x \<le> 0 \<and> PRICE_SOURCE cfg = ''coinbase'' \<longrightarrow>
        poll N cfg now (Response True (JNum (Num x))) b c st
          = st\<lparr>lastPrice := Num x, priceBuffer := pushPrice N (priceBuffer st) now (Num x)\<rparr>)
   \<and> coinbase_onmessage N now
        (Some \<lparr>m_type = JStr ''ticker'', m_product_id = JStr ''FIL-USD'', m_price = JNum (Num 0)\<rparr>) st
        = st
   \<and> kraken_onmessage N now (Some (JNum (Num 0))) st = st
   \<and> coinbase_onmessage N now
        (Some \<lparr>m_type = JStr ''ticker'', m_product_id = JStr ''FIL-USD'', m_price = JStr ''0''\<rparr>) st
        = st\<lparr>lastPrice := Num 0, priceBuffer := pushPrice N (priceBuffer st) now (Num 0)\<rparr>
   \<and> kraken_onmessage N now (Some (JStr ''0'')) st
        = st\<lparr>lastPrice := Num 0, priceBuffer := pushPrice N (priceBuffer st) now (Num 0)\<rparr>"
proof -
  have neg: "coinbase_onmessage N now
          (Some \<lparr>m_type = JStr ''ticker'', m_product_id = JStr ''FIL-USD'', m_price = JNum (Num x)\<rparr>) st
          = st\<lparr>lastPrice := Num x, priceBuffer := pushPrice N (priceBuffer st) now (Num x)\<rparr>
        \<and> kraken_onmessage N now (Some (JNum (Num x))) st
          = st\<lparr>lastPrice := Num x, priceBuffer := pushPrice N (priceBuffer st) now (Num x)\<rparr>"
    if "x < 0"
    using that by (simp add: coinbase_onmessage_def kraken_onmessage_def Let_def)
  have pl: "poll N cfg now (Response True (JNum (Num x))) b c st
          = st\<lparr>lastPrice := Num x, priceBuffer := pushPrice N (priceBuffer st) now (Num x)\<rparr>"
    if "x \<le> 0 \<and> PRICE_SOURCE cfg = ''coinbase''"
    using that by (simp add: poll_def getJsonNum_def)
  have z: "coinbase_onmessage N now
        (Some \<lparr>m_type = JStr ''ticker'', m_product_id = JStr ''FIL-USD'', m_price = JNum (Num 0)\<rparr>) st
        = st"
    "kraken_onmessage N now (Some (JNum (Num 0))) st = st"
    by (simp_all add: coinbase_onmessage_def kraken_onmessage_def)
  have zt: "coinbase_onmessage N now
        (Some \<lparr>m_type = JStr ''ticker'', m_product_id = JStr ''FIL-USD'', m_price = JStr ''0''\<rparr>) st
        = st\<lparr>lastPrice := Num 0, priceBuffer := pushPrice N (priceBuffer st) now (Num 0)\<rparr>"
    "kraken_onmessage N now (Some (JStr ''0'')) st
        = st\<lparr>lastPrice := Num 0, priceBuffer := pushPrice N (priceBuffer st) now (Num 0)\<rparr>"
    by (simp_all add: coinbase_onmessage_def kraken_onmessage_def Number_str_zero Let_def)
  from coinbase_onmessage_cases [of N now m st] kraken_onmessage_cases [of N now v st]
    poll_cases [of N cfg now a b c st] price_inv_run [OF price_inv_init, of N cfg evs] neg pl z zt
  show ?thesis by blast
qed

theorem accepted_price_finite_witness:
  "(- 5::real) < 0
   \<and> coinbase_onmessage 2 1000
        (Some \<lparr>m_type = JStr ''ticker'', m_product_id = JStr ''FIL-USD'', m_price = JNum (Num (- 5))\<rparr>)
        init_state
      = init_state\<lparr>lastPrice := Num (- 5), priceBuffer := [\<lparr>t = 1000, p = Num (- 5)\<rparr>]\<rparr>
   \<and> kraken_onmessage 2 1000 (Some (JNum (Num (- 5)))) init_state
      = init_state\<lparr>lastPrice := Num (- 5), priceBuffer := [\<lparr>t = 1000, p = Num (- 5)\<rparr>]\<rparr>
   \<and> PRICE_SOURCE shipped_settings = ''coinbase''
   \<and> poll 2 shipped_settings 1000 (Response True (JNum (Num (- 5)))) Throws Throws init_state
      = init_state\<lparr>lastPrice := Num (- 5), priceBuffer := [\<lparr>t = 1000, p = Num (- 5)\<rparr>]\<rparr>
   \<and> price_inv 2 (run 2 shipped_settings
        [(1000, CoinbaseMessage (Some \<lparr>m_type = JStr ''ticker'', m_product_id = JStr ''FIL-USD'',
                                        m_price = JNum (Num (- 5))\<rparr>)),
         (2000, KrakenMessage (Some (JStr ''abc''))),
         (3000, RestPoll Throws Throws Throws)] init_state)"
proof -
  have b: "pushPrice 2 (priceBuffer init_state) 1000 (Num (- 5)) = [\<lparr>t = 1000, p = Num (- 5)\<rparr>]"
    by (simp add: pushPrice_def init_state_def)
  have s: "PRICE_SOURCE shipped_settings = ''coinbase''" by (simp add: shipped_settings_def)
  note T = accepted_price_finite [of 2 1000 None init_state None shipped_settings Throws Throws Throws
      "[(1000, CoinbaseMessage (Some \<lparr>m_type = JStr ''ticker'', m_product_id = JStr ''FIL-USD'',
                                        m_price = JNum (Num (- 5))\<rparr>)),
        (2000, KrakenMessage (Some (JStr ''abc''))),
        (3000, RestPoll Throws Throws Throws)]" "- 5"]
  have n: "(- 5::real) < 0" and n': "(- 5::real) \<le> 0" by simp_all
  note R = T [THEN conjunct2, THEN conjunct2, THEN conjunct2, THEN conjunct1]
  note E = T [THEN conjunct2, THEN conjunct2, THEN conjunct2, THEN conjunct2, THEN conjunct1,
      THEN mp, OF n, unfolded b]
  note F = T [THEN conjunct2, THEN conjunct2, THEN conjunct2, THEN conjunct2, THEN conjunct2,
      THEN conjunct1, THEN mp, OF conjI [OF n' s], unfolded b]
  from n s R E F show ?thesis by blast
qed

text \<open>
  The statement that a non-positive price is never accepted fails: the ticker message with
  the price text \<^verbatim>\<open>-1\<close> is accepted, and \<open>-1\<close> becomes the current price and the
  newest sample.
\<close>

theorem coinbase_accepts_nonpositive_counterexample:
  "coinbase_onmessage BUF_MAX_POINTS 1000
     (Some \<lparr>m_type = JStr ''ticker'', m_product_id = JStr ''FIL-USD'', m_price = JStr ''-1''\<rparr>)
     init_state
   = init_state\<lparr>lastPrice := Num (- 1), priceBuffer := [\<lparr>t = 1000, p = Num (- 1)\<rparr>]\<rparr>
   \<and> js_le (Num (- 1)) (Num 0)"
proof -
  have "to_double 1 1 = Num 1" using to_double_exact [of 1 1 1 0] by simp
  then have "Number_str ''-1'' = Num (- 1)"
    by (simp add: Number_str_def trim_def is_space_def non_decimal_def str_decimal_def
        unsigned_decimal_def is_digit_def exponent_part_def nat_of_digits_def nat_of_base_def
        digit_val_def)
  then show ?thesis
    by (simp add: coinbase_onmessage_def init_state_def pushPrice_def BUF_MAX_POINTS_def Let_def)
qed

text \<open>
  C8, as the code has it. \<open>pushPrice\<close> does not look at the price: the sample it is given
  becomes the newest of the buffer, finite or not. The test is made by each caller: a
  message or a poll that brings no finite number leaves the whole state, the buffer
  included, as it was, and raises nothing.
\<close>

theorem nonfinite_price_dropped_by_callers:
  "(0 < N \<longrightarrow> last (pushPrice N buf ts px) = \<lparr>t = ts, p = px\<rparr>)
   \<and> (\<not> isFinite (Number (m_price m)) \<longrightarrow> coinbase_onmessage N now (Some m) st = st)
   \<and> (\<not> isFinite (Number v) \<longrightarrow> kraken_onmessage N now (Some v) st = st)
   \<and> (\<not> brings_finite a \<and> \<not> brings_finite b \<and> \<not> brings_finite c \<longrightarrow>
        poll N cfg now a b c st = st)"
proof -
  have 1: "last (pushPrice N buf ts px) = \<lparr>t = ts, p = px\<rparr>" if "0 < N"
  proof -
    let ?b = "buf @ [\<lparr>t = ts, p = px\<rparr>]"
    have "length ?b - N < length ?b" using that by simp
    then have "last (drop (length ?b - N) ?b) = last ?b" by (rule last_drop)
    then show ?thesis unfolding pushPrice_def Let_def by simp
  qed
  have 2: "coinbase_onmessage N now (Some m) st = st" if "\<not> isFinite (Number (m_price m))"
    using that by (simp add: coinbase_onmessage_def)
  have 3: "kraken_onmessage N now (Some v) st = st" if "\<not> isFinite (Number v)"
    using that by (simp add: kraken_onmessage_def)
  have 4: "poll N cfg now a b c st = st"
    if "\<not> brings_finite a \<and> \<not> brings_finite b \<and> \<not> brings_finite c"
    using that unfolding poll_def brings_finite_def by (auto split: option.splits)
  from 1 2 3 4 show ?thesis by blast
qed

theorem nonfinite_price_dropped_by_callers_witness:
  "last (pushPrice 3 [\<lparr>t = 1, p = Num 2\<rparr>] 5 NaN) = \<lparr>t = 5, p = NaN\<rparr>
   \<and> \<not> isFinite (Number (JStr ''abc''))
   \<and> coinbase_onmessage 3 5
        (Some \<lparr>m_type = JStr ''ticker'', m_product_id = JStr ''FIL-USD'', m_price = JStr ''abc''\<rparr>)
        init_state = init_state
   \<and> kraken_onmessage 3 5 (Some (JStr ''abc'')) init_state = init_state
   \<and> \<not> brings_finite Throws \<and> \<not> brings_finite (Response False JNull)
   \<and> \<not> brings_finite (Response True (JStr ''abc''))
   \<and> poll 3 shipped_settings 5 (Response True (JStr ''abc'')) (Response False JNull) Throws init_state
      = init_state"
proof -
  have n: "\<not> isFinite (Number (JStr ''abc''))"
    by (simp add: Number_str_def trim_def is_space_def non_decimal_def str_decimal_def
        unsigned_decimal_def is_digit_def)
  have b: "\<not> brings_finite Throws" "\<not> brings_finite (Response False JNull)"
    "\<not> brings_finite (Response True (JStr ''abc''))"
    using n by (simp_all add: brings_finite_def getJsonNum_def)
  show ?thesis
    using n b
      nonfinite_price_dropped_by_callers [of 3 "[\<lparr>t = 1, p = Num 2\<rparr>]" 5 NaN
        "\<lparr>m_type = JStr ''ticker'', m_product_id = JStr ''FIL-USD'', m_price = JStr ''abc''\<rparr>"
        5 init_state "JStr ''abc''" "Response True (JStr ''abc'')" "Response False JNull" Throws
        shipped_settings]
    by simp
qed

text \<open>
  The statement that the append is a no-op on a non-finite price fails for \<open>pushPrice\<close>
  itself: called with NaN on the empty buffer it leaves a buffer of one sample.
\<close>

theorem pushPrice_nonfinite_counterexample:
  "pushPrice BUF_MAX_POINTS [] 1000 NaN = [\<lparr>t = 1000, p = NaN\<rparr>] \<and> \<not> isFinite NaN"
  by (simp add: pushPrice_def BUF_MAX_POINTS_def)

section \<open>Properties of the alert evaluation\<close>

lemma maybeAlert_unfold:
  "maybeAlert cfg now price st =
     (if ENABLE_ALERTS cfg \<and> (stop_loss_triggers cfg price \<or> take_profit_triggers cfg price)
         \<and> cooldown_over cfg now st
      then (Notification (alert_text_for cfg price)
              # (if ALERT_WEBHOOK cfg \<noteq> []
                 then [WebhookPost (ALERT_WEBHOOK cfg) (alert_text_for cfg price)] else []),
            st\<lparr>lastAlertTs := now\<rparr>)
      else ([], st))"
  by (simp add: maybeAlert_def Let_def stop_loss_triggers_def take_profit_triggers_def
      cooldown_over_def alert_text_for_def)

text \<open>
  C3, as the code has it. With alerts enabled, an evaluation emits an alert if and only if
  the stop-loss or the take-profit triggers and the cooldown is over; it then emits
  exactly one alert event (the notification, repeated to the webhook when one is set),
  the stop-loss text when the stop-loss triggers and the take-profit text otherwise, and
  sets \<open>lastAlertTs\<close> to \<open>now\<close>. In every other case, alerts disabled included, it emits
  nothing and leaves the state as it was. It never emits more than one alert event.
\<close>

theorem maybeAlert_spec:
  "(ENABLE_ALERTS cfg \<and> (stop_loss_triggers cfg price \<or> take_profit_triggers cfg price)
      \<and> cooldown_over cfg now st \<longrightarrow>
        fst (maybeAlert cfg now price st)
          = Notification (alert_text_for cfg price)
              # (if ALERT_WEBHOOK cfg \<noteq> []
                 then [WebhookPost (ALERT_WEBHOOK cfg) (alert_text_for cfg price)] else [])
        \<and> alert_events (fst (maybeAlert cfg now price st)) = [alert_text_for cfg price]
        \<and> (stop_loss_triggers cfg price \<longrightarrow>
             alert_text_for cfg price = StopLossText price (SL_PRICE cfg))
        \<and> snd (maybeAlert cfg now price st) = st\<lparr>lastAlertTs := now\<rparr>)
   \<and> (\<not> (ENABLE_ALERTS cfg \<and> (stop_loss_triggers cfg price \<or> take_profit_triggers cfg price)
          \<and> cooldown_over cfg now st) \<longrightarrow>
        maybeAlert cfg now price st = ([], st))
   \<and> length (alert_events (fst (maybeAlert cfg now price st))) \<le> 1"
  by (simp add: maybeAlert_unfold alert_text_for_def)

theorem maybeAlert_spec_witness:
  "maybeAlert shipped_settings 1700000000000 (Num 1.5) init_state
     = ([Notification (StopLossText (Num 1.5) (Num 2))], init_state\<lparr>lastAlertTs := 1700000000000\<rparr>)
   \<and> maybeAlert shipped_settings 1700000001000 (Num 1.4) (init_state\<lparr>lastAlertTs := 1700000000000\<rparr>)
     = ([], init_state\<lparr>lastAlertTs := 1700000000000\<rparr>)"
proof -
  have e: "ENABLE_ALERTS shipped_settings" "ALERT_WEBHOOK shipped_settings = []"
    by (simp_all add: shipped_settings_def)
  have s1: "stop_loss_triggers shipped_settings (Num 1.5)"
    by (simp add: stop_loss_triggers_def shipped_settings_def)
  have c1: "cooldown_over shipped_settings 1700000000000 init_state"
    by (simp add: cooldown_over_def shipped_settings_def init_state_def js_ge_def)
  have c2: "\<not> cooldown_over shipped_settings 1700000001000 (init_state\<lparr>lastAlertTs := 1700000000000\<rparr>)"
    by (simp add: cooldown_over_def shipped_settings_def init_state_def js_ge_def)
  have t1: "alert_text_for shipped_settings (Num 1.5) = StopLossText (Num 1.5) (Num 2)"
    using s1 by (simp add: alert_text_for_def shipped_settings_def)
  have "maybeAlert shipped_settings 1700000000000 (Num 1.5) init_state
     = ([Notification (StopLossText (Num 1.5) (Num 2))], init_state\<lparr>lastAlertTs := 1700000000000\<rparr>)"
    using maybeAlert_spec [of shipped_settings "Num 1.5" 1700000000000 init_state] e s1 c1 t1
    by (simp add: prod_eq_iff)
  moreover have "maybeAlert shipped_settings 1700000001000 (Num 1.4)
      (init_state\<lparr>lastAlertTs := 1700000000000\<rparr>) = ([], init_state\<lparr>lastAlertTs := 1700000000000\<rparr>)"
    using maybeAlert_spec [of shipped_settings "Num 1.4" 1700000001000
        "init_state\<lparr>lastAlertTs := 1700000000000\<rparr>"] c2
    by simp
  ultimately show ?thesis by simp
qed

text \<open>
  The statement without the enabling flag fails: with alerts disabled the stop-loss
  triggers and the cooldown is over, and nothing is emitted.
\<close>

theorem maybeAlert_disabled_counterexample:
  "stop_loss_triggers (shipped_settings\<lparr>ENABLE_ALERTS := False\<rparr>) (Num 1.5)
   \<and> cooldown_over (shipped_settings\<lparr>ENABLE_ALERTS := False\<rparr>) 1700000000000 init_state
   \<and> maybeAlert (shipped_settings\<lparr>ENABLE_ALERTS := False\<rparr>) 1700000000000 (Num 1.5) init_state
       = ([], init_state)"
  by (simp add: maybeAlert_def stop_loss_triggers_def cooldown_over_def shipped_settings_def
      init_state_def js_ge_def)

section \<open>Properties of the quantity refresh\<close>











section \<open>Properties of the lots and of the render tick\<close>

lemma normalize_loop_map_filter:
  "normalize_loop out ls = out @ List.map_filter normalizeLot ls"
  by (induction ls arbitrary: out) (simp_all add: List.map_filter_simps split: option.split)

lemma normalizeLots_map_filter: "normalizeLots ls = List.map_filter normalizeLot ls"
  by (simp add: normalizeLots_def normalize_loop_map_filter)

lemma invalid_iff:
  "(\<not> isFinite q \<or> js_le q (Num 0)) = (\<not> (isFinite q \<and> js_gt q (Num 0)))"
  by (cases q) (auto simp: js_gt_def)

lemma normalizeLot_usd_ignored:
  "not_nullish (in_qty l) \<Longrightarrow> normalizeLot (l\<lparr>in_usd := u\<rparr>) = normalizeLot l"
  by (simp add: normalizeLot_def Let_def)

lemma normalizeLots_append:
  "normalizeLots (xs @ ys) = normalizeLots xs @ normalizeLots ys"
  by (simp add: normalizeLots_map_filter List.map_filter_def)

lemma normalizeLots_Cons:
  "normalizeLots (l # ls)
     = (case normalizeLot l of None \<Rightarrow> normalizeLots ls | Some x \<Rightarrow> x # normalizeLots ls)"
  by (simp add: normalizeLots_map_filter List.map_filter_simps split: option.split)

lemma normalizeLots_Nil: "normalizeLots [] = []"
  by (simp add: normalizeLots_def)

text \<open>
  C9, as the code has it. Take an entry whose \<open>qty\<close> field is present (neither \<^verbatim>\<open>null\<close>
  nor \<^verbatim>\<open>undefined\<close>), anywhere in the list of entries. When its price and its \<open>qty\<close>
  both convert to finite positive numbers, the normalized list has at its place the lot with
  that quantity, the invested amount \<open>qty * price\<close>, that price and the entry's time stamp.
  When its \<open>qty\<close> does not convert to a finite positive number, the entry is dropped: the
  normalized list is that of the entries before it followed by that of the entries after it.
  In both cases the \<open>usd\<close> field has no influence on the normalized list.
\<close>

theorem normalizeLots_qty_precedence:
  "(not_nullish (in_qty l) \<and> isFinite (Number (in_price l)) \<and> js_gt (Number (in_price l)) (Num 0)
      \<and> isFinite (Number (in_qty l)) \<and> js_gt (Number (in_qty l)) (Num 0)
      \<longrightarrow>
        normalizeLots (before @ l # after) =
          normalizeLots before
          @ \<lparr>lot_qty = Number (in_qty l),
              lot_usd = js_mul (Number (in_qty l)) (Number (in_price l)),
              lot_price = Number (in_price l),
              lot_ts = (if truthy (in_ts l) then in_ts l else JNull)\<rparr>
          # normalizeLots after)
   \<and> (not_nullish (in_qty l) \<and> \<not> (isFinite (Number (in_qty l)) \<and> js_gt (Number (in_qty l)) (Num 0))
      \<longrightarrow> normalizeLots (before @ l # after) = normalizeLots before @ normalizeLots after)
   \<and> (not_nullish (in_qty l) \<longrightarrow>
        normalizeLots (before @ l\<lparr>in_usd := u\<rparr> # after) = normalizeLots (before @ l # after))"
proof -
  have 1: "normalizeLot l =
       Some \<lparr>lot_qty = Number (in_qty l),
             lot_usd = js_mul (Number (in_qty l)) (Number (in_price l)),
             lot_price = Number (in_price l),
             lot_ts = (if truthy (in_ts l) then in_ts l else JNull)\<rparr>"
    if "not_nullish (in_qty l)" "isFinite (Number (in_price l))"
      "js_gt (Number (in_price l)) (Num 0)"
      "isFinite (Number (in_qty l))" "js_gt (Number (in_qty l)) (Num 0)"
    using that unfolding normalizeLot_def Let_def invalid_iff by simp
  have 2: "normalizeLot l = None"
    if "not_nullish (in_qty l)"
      "\<not> (isFinite (Number (in_qty l)) \<and> js_gt (Number (in_qty l)) (Num 0))"
    using that unfolding normalizeLot_def Let_def invalid_iff by simp
  have 3: "normalizeLots (before @ l\<lparr>in_usd := u\<rparr> # after) = normalizeLots (before @ l # after)"
    if "not_nullish (in_qty l)"
    using normalizeLot_usd_ignored [OF that, of u]
    by (simp add: normalizeLots_append normalizeLots_Cons)
  from 1 have 4: "normalizeLots (before @ l # after) =
          normalizeLots before
          @ \<lparr>lot_qty = Number (in_qty l),
              lot_usd = js_mul (Number (in_qty l)) (Number (in_price l)),
              lot_price = Number (in_price l),
              lot_ts = (if truthy (in_ts l) then in_ts l else JNull)\<rparr>
          # normalizeLots after"
    if "not_nullish (in_qty l)" "isFinite (Number (in_price l))"
      "js_gt (Number (in_price l)) (Num 0)"
      "isFinite (Number (in_qty l))" "js_gt (Number (in_qty l)) (Num 0)"
    using that by (simp add: normalizeLots_append normalizeLots_Cons)
  from 2 have 5: "normalizeLots (before @ l # after) = normalizeLots before @ normalizeLots after"
    if "not_nullish (in_qty l)"
      "\<not> (isFinite (Number (in_qty l)) \<and> js_gt (Number (in_qty l)) (Num 0))"
    using that by (simp add: normalizeLots_append normalizeLots_Cons)
  from 3 4 5 show ?thesis by blast
qed

theorem normalizeLots_qty_precedence_witness:
  "not_nullish (JNum (Num 10)) \<and> isFinite (Number (JNum (Num 4)))
   \<and> js_gt (Number (JNum (Num 4))) (Num 0)
   \<and> isFinite (Number (JNum (Num 10))) \<and> js_gt (Number (JNum (Num 10))) (Num 0)
   \<and> normalizeLots [\<lparr>in_price = JNum (Num 4), in_qty = JNum (Num 10), in_usd = JNum (Num 999),
                      in_ts = JUndefined\<rparr>]
       = [\<lparr>lot_qty = Num 10, lot_usd = Num 40, lot_price = Num 4, lot_ts = JNull\<rparr>]"
  using normalizeLots_qty_precedence [of "\<lparr>in_price = JNum (Num 4), in_qty = JNum (Num 10),
      in_usd = JNum (Num 999), in_ts = JUndefined\<rparr>" "[]" "[]" "JNull"]
  by (simp add: not_nullish_def js_gt_def normalizeLots_Nil)

text \<open>
  The statement that an entry with both fields and a valid price always gives a lot with
  the invested amount \<open>qty * price\<close> fails when the \<open>qty\<close> field is present but is not a
  finite positive number: with the price 4, the amount 100 and the quantity 0, or the
  empty text, the entry gives no lot at all, although the same entry without a \<open>qty\<close>
  field gives the lot of 25 FIL bought for 100.
\<close>

theorem normalizeLots_zero_qty_counterexample:
  "not_nullish (JNum (Num 0)) \<and> not_nullish (JStr []) \<and> not_nullish (JNum (Num 100))
   \<and> isFinite (Number (JNum (Num 4))) \<and> js_gt (Number (JNum (Num 4))) (Num 0)
   \<and> normalizeLots [\<lparr>in_price = JNum (Num 4), in_qty = JNum (Num 0), in_usd = JNum (Num 100),
                      in_ts = JUndefined\<rparr>] = []
   \<and> normalizeLots [\<lparr>in_price = JNum (Num 4), in_qty = JStr [], in_usd = JNum (Num 100),
                      in_ts = JUndefined\<rparr>] = []
   \<and> normalizeLots [\<lparr>in_price = JNum (Num 4), in_qty = JUndefined, in_usd = JNum (Num 100),
                      in_ts = JUndefined\<rparr>]
       = [\<lparr>lot_qty = Num 25, lot_usd = Num 100, lot_price = Num 4, lot_ts = JNull\<rparr>]"
  by (simp add: normalizeLots_def normalizeLot_def not_nullish_def js_gt_def Let_def
      Number_str_def trim_def)









end
